theory Spec2Isabelle
  imports Main
begin

section \<open>Python values shared by all modules\<close>

text \<open>
  The exceptions the modelled code can raise. A function that may raise returns
  \<open>py_error + 'a\<close>, with \<open>Inl\<close> for the exception.
\<close>

datatype py_error = ValueError | KeyError | IndexError | RuntimeError

text \<open>\<open>s.startswith(p)\<close>.\<close>

definition startswith :: "string \<Rightarrow> string \<Rightarrow> bool" where
  "startswith s p = (take (length p) s = p)"

text \<open>
  \<open>int(s)\<close> on a string: the mnemonics of the disassembler carry a plain decimal suffix
  (\<open>DUP1\<close> .. \<open>DUP16\<close>, \<open>SWAP1\<close> .. \<open>SWAP16\<close>, \<open>PUSH1\<close> .. \<open>PUSH32\<close>), so the model
  parses a non-empty run of ASCII digits and raises \<open>ValueError\<close> on anything else.
\<close>

definition digit_val :: "char \<Rightarrow> nat option" where
  "digit_val c =
     (let n = (of_char c :: nat) in if 48 \<le> n \<and> n \<le> 57 then Some (n - 48) else None)"

fun digits_acc :: "string \<Rightarrow> nat \<Rightarrow> nat option" where
  "digits_acc [] acc = Some acc"
| "digits_acc (c # cs) acc =
     (case digit_val c of None \<Rightarrow> None | Some d \<Rightarrow> digits_acc cs (10 * acc + d))"

definition py_int :: "string \<Rightarrow> py_error + nat" where
  "py_int s =
     (if s = [] then Inl ValueError
      else case digits_acc s 0 of None \<Rightarrow> Inl ValueError | Some n \<Rightarrow> Inr n)"

section \<open>cfg_static_complete.py: SimpleStackValueAnalyzer\<close>

text \<open>
  An instruction of the external disassembler (pyevmasm), as far as the analyzer reads
  it: \<open>instr.pc\<close>, \<open>instr.name\<close>, \<open>instr.operand\<close> (read for PUSH only).
\<close>

record instruction =
  instr_pc :: int
  instr_name :: string
  instr_operand :: int

text \<open>
  The analyzer object: \<open>self.instructions\<close>. The dict \<open>self.instr_by_pc\<close> is built by
  a comprehension over the list, so a later instruction overwrites an earlier one with the
  same pc.
\<close>

definition instr_by_pc :: "instruction list \<Rightarrow> int \<Rightarrow> instruction option" where
  "instr_by_pc instructions = map_of (rev (map (\<lambda>i. (instr_pc i, i)) instructions))"

text \<open>\<open>xs.index(x)\<close>: the first position holding a value equal to \<open>x\<close>.\<close>

fun list_index :: "'a list \<Rightarrow> 'a \<Rightarrow> nat option" where
  "list_index [] x = None"
| "list_index (y # ys) x =
     (if y = x then Some 0 else map_option Suc (list_index ys x))"

text \<open>
  One iteration of the loop of \<open>get_jump_target\<close> on the abstract stack. The stack is the
  Python list: its top is its last element. An iteration goes on with a new stack
  (\<open>Next\<close>), leaves the function with \<open>return None\<close> (\<open>ReturnNone\<close>), leaves the loop with
  \<open>break\<close> (\<open>Break\<close>), or raises. The stack only ever holds integers (PUSH operands and
  results of arithmetic), on which \<open>int(val)\<close> is the identity, so the \<open>except ValueError\<close>
  branch of the arithmetic case is never taken. Python integers are unbounded: \<open>int\<close>.
\<close>

datatype sim = Next "int list" | ReturnNone | Break | Raise py_error

definition arith_result :: "string \<Rightarrow> int \<Rightarrow> int \<Rightarrow> int" where
  "arith_result nm num1 num2 =
     (if nm = ''ADD'' then num2 + num1
      else if nm = ''SUB'' then num2 - num1
      else if nm = ''MUL'' then num2 * num1
      else if num1 = 0 then 0
      else num2 div num1)"

definition sim_step :: "instruction \<Rightarrow> int list \<Rightarrow> sim" where
  "sim_step instr stack =
     (if startswith (instr_name instr) ''PUSH'' then Next (stack @ [instr_operand instr])
      else if startswith (instr_name instr) ''DUP'' then
        (case py_int (drop 3 (instr_name instr)) of
           Inl e \<Rightarrow> Raise e
         | Inr n \<Rightarrow>
             if length stack \<ge> n then
               (if n = 0 then (if stack = [] then Raise IndexError else Next (stack @ [last stack]))
                else Next (stack @ [stack ! (n - 1)]))
             else ReturnNone)
      else if startswith (instr_name instr) ''SWAP'' then
        (case py_int (drop 4 (instr_name instr)) of
           Inl e \<Rightarrow> Raise e
         | Inr n \<Rightarrow>
             if length stack \<ge> n + 1 then
               (let top = length stack - 1; deep = length stack - n - 1;
                    a = stack ! deep; b = stack ! top
                in Next ((stack[top := a])[deep := b]))
             else ReturnNone)
      else if instr_name instr \<in> set [''POP''] then
        (if stack \<noteq> [] then Next (butlast stack) else ReturnNone)
      else if instr_name instr \<in> set [''ADD'', ''SUB'', ''MUL'', ''DIV''] then
        (if length stack \<ge> 2 then
           (let val1 = last stack; stack1 = butlast stack;
                val2 = last stack1; stack2 = butlast stack1
            in Next (stack2 @ [arith_result (instr_name instr) val1 val2]))
         else ReturnNone)
      else Break)"

text \<open>
  The \<open>for\<close> loop over the instructions handed to it, from the given stack: \<open>Inr None\<close> is
  \<open>return None\<close> from inside the loop, \<open>Inr (Some stack)\<close> the stack with which the loop is
  left (exhausted or by \<open>break\<close>).
\<close>

fun sim_loop :: "instruction list \<Rightarrow> int list \<Rightarrow> py_error + int list option" where
  "sim_loop [] stack = Inr (Some stack)"
| "sim_loop (instr # rest) stack =
     (case sim_step instr stack of
        Next stack' \<Rightarrow> sim_loop rest stack'
      | ReturnNone \<Rightarrow> Inr None
      | Break \<Rightarrow> Inr (Some stack)
      | Raise e \<Rightarrow> Inl e)"

text \<open>What the function returns from the stack left by the loop.\<close>

definition stack_top :: "py_error + int list option \<Rightarrow> py_error + int option" where
  "stack_top r =
     (case r of
        Inl e \<Rightarrow> Inl e
      | Inr None \<Rightarrow> Inr None
      | Inr (Some stack) \<Rightarrow> if stack \<noteq> [] then Inr (Some (last stack)) else Inr None)"

text \<open>
  \<open>get_jump_target\<close>: the loop runs over
  \<open>reversed(self.instructions[:self.instructions.index(jump_instr)])\<close>.
\<close>

definition get_jump_target :: "instruction list \<Rightarrow> int \<Rightarrow> py_error + int option" where
  "get_jump_target instructions jump_pc =
     (case instr_by_pc instructions jump_pc of
        None \<Rightarrow> Inr None
      | Some jump_instr \<Rightarrow>
          if instr_name jump_instr \<notin> set [''JUMP'', ''JUMPI''] then Inr None
          else
            (case list_index instructions jump_instr of
               None \<Rightarrow> Inl ValueError
             | Some k \<Rightarrow> stack_top (sim_loop (rev (take k instructions)) [])))"

text \<open>
  The algorithm as the specification words it, for comparison: the same instructions in
  their original forward order, on the initially empty stack.
\<close>

definition get_jump_target_forward :: "instruction list \<Rightarrow> int \<Rightarrow> py_error + int option" where
  "get_jump_target_forward instructions jump_pc =
     (case instr_by_pc instructions jump_pc of
        None \<Rightarrow> Inr None
      | Some jump_instr \<Rightarrow>
          if instr_name jump_instr \<notin> set [''JUMP'', ''JUMPI''] then Inr None
          else
            (case list_index instructions jump_instr of
               None \<Rightarrow> Inl ValueError
             | Some k \<Rightarrow> stack_top (sim_loop (take k instructions) [])))"

section \<open>Program counters as hex strings\<close>

text \<open>
  \<open>Web3.to_hex\<close> on an integer is Python's \<open>hex\<close>: lower-case digits after \<open>0x\<close>, no
  padding, a leading minus sign for a negative number.
\<close>

definition hex_char :: "nat \<Rightarrow> char" where
  "hex_char d = ''0123456789abcdef'' ! (d mod 16)"

fun hex_digits :: "nat \<Rightarrow> string" where
  "hex_digits n = (if n < 16 then [hex_char n] else hex_digits (n div 16) @ [hex_char (n mod 16)])"

declare hex_digits.simps [simp del]

definition to_hex :: "int \<Rightarrow> string" where
  "to_hex i = (if i < 0 then ''-0x'' @ hex_digits (nat (- i)) else ''0x'' @ hex_digits (nat i))"

text \<open>
  \<open>int(pc, 16)\<close> on the pc strings of a block (\<open>0x\<close> followed by hex digits): the model
  drops an optional \<open>0x\<close> or \<open>0X\<close> and reads a non-empty run of hex digits of either
  case; anything else raises \<open>ValueError\<close>.
\<close>

definition hex_val :: "char \<Rightarrow> nat option" where
  "hex_val c =
     (let n = (of_char c :: nat) in
      if 48 \<le> n \<and> n \<le> 57 then Some (n - 48)
      else if 97 \<le> n \<and> n \<le> 102 then Some (n - 87)
      else if 65 \<le> n \<and> n \<le> 70 then Some (n - 55)
      else None)"

fun hex_acc :: "string \<Rightarrow> nat \<Rightarrow> nat option" where
  "hex_acc [] acc = Some acc"
| "hex_acc (c # cs) acc =
     (case hex_val c of None \<Rightarrow> None | Some d \<Rightarrow> hex_acc cs (16 * acc + d))"

definition py_int16 :: "string \<Rightarrow> py_error + int" where
  "py_int16 s =
     (let body = (if startswith s ''0x'' \<or> startswith s ''0X'' then drop 2 s else s) in
      if body = [] then Inl ValueError
      else case hex_acc body 0 of None \<Rightarrow> Inl ValueError | Some n \<Rightarrow> Inr (int n))"

section \<open>Basic blocks and the CFG structure\<close>

text \<open>
  Modelled from the spec: \<open>basic_block.Block\<close> is not among the sources. The builders
  read \<open>block.address\<close>, \<open>block.start_pc\<close> (hex strings) and \<open>block.instructions\<close>, the
  ordered list of \<open>(pc, opcode)\<close> pairs (spec, section 3, BasicBlock).
\<close>

record block =
  address :: string
  start_pc :: string
  instructions :: "(string \<times> string) list"

type_synonym block_key = "string \<times> string"

definition block_key :: "block \<Rightarrow> block_key" where
  "block_key b = (address b, start_pc b)"

text \<open>
  Modelled from the spec: \<open>cfg_structure.BlockNode\<close>, \<open>Edge\<close> and \<open>CFG\<close> are not among the
  sources. A node wraps its block (\<open>node.base_block\<close>, and \<open>node.address\<close>,
  \<open>node.start_pc\<close> taken from it); the identity of a node is the pair (address,
  start_pc) (spec, section 3, CFG), which is how \<open>==\<close> and \<open>!=\<close> on nodes are read.
  A CFG is an ordered collection of nodes and edges with a counter for edge ids
  (\<open>cfg._next_edge_id\<close>, \<open>cfg.nodes\<close>, \<open>cfg.edges\<close> in the builders).
\<close>

record block_node =
  base_block :: block

definition node_key :: "block_node \<Rightarrow> block_key" where
  "node_key n = block_key (base_block n)"

definition BlockNode :: "block \<Rightarrow> block_node" where
  "BlockNode b = \<lparr>base_block = b\<rparr>"

record edge =
  edge_id :: nat
  source :: block_node
  target :: block_node
  edge_type :: string

record cfg =
  tx_hash :: string
  nodes :: "block_node list"
  edges :: "edge list"
  next_edge_id :: nat

definition CFG :: "string \<Rightarrow> cfg" where
  "CFG h = \<lparr>tx_hash = h, nodes = [], edges = [], next_edge_id = 0\<rparr>"

text \<open>
  Modelled from the spec: \<open>add_node(n)\<close>, \<open>add_edge(source, target, kind)\<close> with a fresh
  monotonic id, and \<open>remove_node(n)\<close>, which also removes every edge with \<open>source == n\<close>
  or \<open>target == n\<close> (spec, section 4.8).
\<close>

definition add_node :: "cfg \<Rightarrow> block_node \<Rightarrow> cfg" where
  "add_node c n = c\<lparr>nodes := nodes c @ [n]\<rparr>"

definition add_edge :: "cfg \<Rightarrow> block_node \<Rightarrow> block_node \<Rightarrow> string \<Rightarrow> cfg" where
  "add_edge c s t k =
     c\<lparr>edges := edges c @ [\<lparr>edge_id = next_edge_id c, source = s, target = t, edge_type = k\<rparr>],
       next_edge_id := next_edge_id c + 1\<rparr>"

definition remove_node :: "cfg \<Rightarrow> block_node \<Rightarrow> cfg" where
  "remove_node c n =
     c\<lparr>nodes := filter (\<lambda>m. node_key m \<noteq> node_key n) (nodes c),
       edges := filter (\<lambda>e. node_key (source e) \<noteq> node_key n \<and> node_key (target e) \<noteq> node_key n)
                  (edges c)\<rparr>"

text \<open>
  The two indexes every builder makes from its block list, by assignment in list order
  (a later block overwrites an earlier one with the same key):
  \<open>(address, start_pc) -> Block\<close> and \<open>(address, pc) -> start_pc\<close>.
\<close>

definition base_block_map :: "block list \<Rightarrow> block_key \<rightharpoonup> block" where
  "base_block_map blocks = map_of (rev (map (\<lambda>b. (block_key b, b)) blocks))"

definition pc_to_start_pc :: "block list \<Rightarrow> block_key \<rightharpoonup> string" where
  "pc_to_start_pc blocks =
     map_of (rev (concat (map (\<lambda>b. map (\<lambda>(pc, _). ((address b, pc), start_pc b)) (instructions b))
                            blocks)))"

section \<open>cfg_static_complete.py: StaticCompleteCFGBuilder\<close>

text \<open>
  \<open>self.contract_address\<close>: the address of the first block, or else \<open>0x\<close> followed by the
  first 20 matches of the regular expression \<open>[0-9a-f]{2}\<close> in the bytecode after its
  prefix.
\<close>

definition is_lower_hex :: "char \<Rightarrow> bool" where
  "is_lower_hex c =
     (let n = (of_char c :: nat) in (48 \<le> n \<and> n \<le> 57) \<or> (97 \<le> n \<and> n \<le> 102))"

fun findall_hex2 :: "string \<Rightarrow> string list" where
  "findall_hex2 (a # b # rest) =
     (if is_lower_hex a \<and> is_lower_hex b then [a, b] # findall_hex2 rest
      else findall_hex2 (b # rest))"
| "findall_hex2 _ = []"

definition static_contract_address :: "string \<Rightarrow> block list \<Rightarrow> string" where
  "static_contract_address contract_bytecode contract_blocks =
     (case contract_blocks of
        b # _ \<Rightarrow> address b
      | [] \<Rightarrow> ''0x'' @ concat (take 20 (findall_hex2 (drop 2 contract_bytecode))))"

definition find_block_by_start_pc :: "block list \<Rightarrow> string \<Rightarrow> string \<Rightarrow> py_error + block" where
  "find_block_by_start_pc contract_blocks addr spc =
     (case base_block_map contract_blocks (addr, spc) of
        None \<Rightarrow> Inl ValueError
      | Some b \<Rightarrow> Inr b)"

definition find_block_by_pc :: "block list \<Rightarrow> string \<Rightarrow> string \<Rightarrow> py_error + block" where
  "find_block_by_pc contract_blocks addr pc =
     (case pc_to_start_pc contract_blocks (addr, pc) of
        None \<Rightarrow> Inl ValueError
      | Some spc \<Rightarrow> find_block_by_start_pc contract_blocks addr spc)"

definition edge_type_map :: "(string \<times> string) list" where
  "edge_type_map =
     [(''JUMP'', ''JUMP''), (''JUMPI'', ''JUMPI''), (''CALL'', ''CALL''),
      (''CALLCODE'', ''CALL''), (''DELEGATECALL'', ''DELEGATECALL''),
      (''STATICCALL'', ''STATICCALL''), (''RETURN'', ''RETURN''), (''REVERT'', ''REVERT''),
      (''SELFDESTRUCT'', ''DESTRUCT''), (''STOP'', ''TERMINATE''), (''INVALID'', ''INVALID''),
      (''CREATE'', ''CREATE''), (''CREATE2'', ''CREATE''), (''SEQUENCE'', ''SEQUENCE''),
      (''CONDITION_TRUE'', ''CONDITION_TRUE''), (''CONDITION_FALSE'', ''CONDITION_FALSE'')]"

definition get_edge_type_static :: "string \<Rightarrow> string" where
  "get_edge_type_static opc =
     (case map_of edge_type_map opc of None \<Rightarrow> ''UNKNOWN'' | Some k \<Rightarrow> k)"

definition get_opcode_length :: "string \<Rightarrow> int" where
  "get_opcode_length opc =
     (if startswith opc ''PUSH'' then
        (case py_int (drop 4 opc) of Inl e \<Rightarrow> 1 | Inr n \<Rightarrow> 1 + int n)
      else 1)"

definition connect_blocks :: "cfg \<Rightarrow> block_node \<Rightarrow> block_node \<Rightarrow> string \<Rightarrow> cfg" where
  "connect_blocks c current_node next_node et =
     c\<lparr>edges := edges c @ [\<lparr>edge_id = next_edge_id c, source = current_node,
                            target = next_node, edge_type = et\<rparr>],
       next_edge_id := next_edge_id c + 1\<rparr>"

type_synonym node_map = "block_key \<rightharpoonup> block_node"

text \<open>Phase 1: one node per block, entered in \<open>node_map\<close> and added to the CFG.\<close>

fun create_nodes :: "block list \<Rightarrow> node_map \<Rightarrow> cfg \<Rightarrow> node_map \<times> cfg" where
  "create_nodes [] nm c = (nm, c)"
| "create_nodes (b # bs) nm c =
     (let node = BlockNode b
      in create_nodes bs (nm(node_key node \<mapsto> node)) (add_node c node))"

text \<open>
  The \<open>try\<close> block that every rule of the edge loop repeats: find the block holding the
  successor pc, take its node from \<open>node_map\<close> and connect it; \<open>ValueError\<close> from the
  lookup is swallowed. The JUMP and JUMPI target rules also skip a target node equal to
  the current node (\<open>no_self_loop\<close>).
\<close>

definition try_connect ::
  "block list \<Rightarrow> node_map \<Rightarrow> cfg \<Rightarrow> block_node \<Rightarrow> string \<Rightarrow> string \<Rightarrow> string \<Rightarrow> bool \<Rightarrow> cfg" where
  "try_connect contract_blocks nm c current_node addr pc_hex et no_self_loop =
     (case find_block_by_pc contract_blocks addr pc_hex of
        Inl e \<Rightarrow> c
      | Inr b \<Rightarrow>
          (case nm (block_key b) of
             None \<Rightarrow> c
           | Some n \<Rightarrow>
               if no_self_loop \<and> node_key n = node_key current_node then c
               else connect_blocks c current_node n et))"

text \<open>Phase 2, the body of the loop over the blocks.\<close>

definition block_edges ::
  "instruction list \<Rightarrow> block list \<Rightarrow> node_map \<Rightarrow> cfg \<Rightarrow> block \<Rightarrow> py_error + cfg" where
  "block_edges sva contract_blocks nm c b =
     (case nm (block_key b) of
        None \<Rightarrow> Inl KeyError
      | Some current_node \<Rightarrow>
          if instructions b = [] then Inr c
          else
            (let pc = fst (last (instructions b));
                 terminator_opcode = snd (last (instructions b))
             in case py_int16 pc of
                  Inl e \<Rightarrow> Inl e
                | Inr pc_int \<Rightarrow>
                    if terminator_opcode = ''JUMPI'' then
                      (let c1 = try_connect contract_blocks nm c current_node (address b)
                                  (to_hex (pc_int + get_opcode_length ''JUMPI''))
                                  (get_edge_type_static ''CONDITION_FALSE'') False
                       in case get_jump_target sva pc_int of
                            Inl e \<Rightarrow> Inl e
                          | Inr None \<Rightarrow> Inr c1
                          | Inr (Some target_pc_int) \<Rightarrow>
                              Inr (try_connect contract_blocks nm c1 current_node (address b)
                                     (to_hex target_pc_int)
                                     (get_edge_type_static ''CONDITION_TRUE'') True))
                    else if terminator_opcode = ''JUMP'' then
                      (case get_jump_target sva pc_int of
                         Inl e \<Rightarrow> Inl e
                       | Inr None \<Rightarrow> Inr c
                       | Inr (Some target_pc_int) \<Rightarrow>
                           Inr (try_connect contract_blocks nm c current_node (address b)
                                  (to_hex target_pc_int) (get_edge_type_static ''JUMP'') True))
                    else if terminator_opcode
                              \<in> set [''STOP'', ''RETURN'', ''REVERT'', ''INVALID'', ''SELFDESTRUCT'']
                    then Inr c
                    else if terminator_opcode
                              \<in> set [''CALL'', ''CALLCODE'', ''DELEGATECALL'', ''STATICCALL'',
                                     ''CREATE'', ''CREATE2'']
                    then
                      Inr (try_connect contract_blocks nm c current_node (address b)
                             (to_hex (pc_int + get_opcode_length terminator_opcode))
                             (get_edge_type_static terminator_opcode) False)
                    else
                      Inr (try_connect contract_blocks nm c current_node (address b)
                             (to_hex (pc_int + get_opcode_length terminator_opcode))
                             (get_edge_type_static ''SEQUENCE'') False)))"

fun synthesize_edges ::
  "instruction list \<Rightarrow> block list \<Rightarrow> node_map \<Rightarrow> block list \<Rightarrow> cfg \<Rightarrow> py_error + cfg" where
  "synthesize_edges sva contract_blocks nm [] c = Inr c"
| "synthesize_edges sva contract_blocks nm (b # bs) c =
     (case block_edges sva contract_blocks nm c b of
        Inl e \<Rightarrow> Inl e
      | Inr c' \<Rightarrow> synthesize_edges sva contract_blocks nm bs c')"

text \<open>
  Phase 3, \<open>remove_unreachable_instruction_blocks\<close>: first the list \<open>to_remove\<close> is
  computed on the unchanged CFG, then each of its nodes is removed from the CFG and its
  key deleted from \<open>node_map\<close> (\<open>del\<close> raises \<open>KeyError\<close> on a key that is not there).
\<close>

definition has_incoming_edge :: "cfg \<Rightarrow> block_node \<Rightarrow> bool" where
  "has_incoming_edge c node = list_ex (\<lambda>e. node_key (target e) = node_key node) (edges c)"

definition unreachable_instruction_block :: "cfg \<Rightarrow> block_node \<Rightarrow> bool" where
  "unreachable_instruction_block c node =
     (\<not> has_incoming_edge c node \<and> start_pc (base_block node) \<noteq> ''0x0'' \<and>
      (case instructions (base_block node) of
         [] \<Rightarrow> False
       | first_instruction # _ \<Rightarrow> snd first_instruction \<noteq> ''JUMPDEST''))"

fun remove_all_nodes :: "block_node list \<Rightarrow> cfg \<Rightarrow> node_map \<Rightarrow> py_error + (cfg \<times> node_map)" where
  "remove_all_nodes [] c nm = Inr (c, nm)"
| "remove_all_nodes (node # rest) c nm =
     (case nm (node_key node) of
        None \<Rightarrow> Inl KeyError
      | Some _ \<Rightarrow> remove_all_nodes rest (remove_node c node) (nm(node_key node := None)))"

definition remove_unreachable_instruction_blocks ::
  "cfg \<Rightarrow> node_map \<Rightarrow> py_error + (cfg \<times> node_map)" where
  "remove_unreachable_instruction_blocks c nm =
     remove_all_nodes (filter (unreachable_instruction_block c) (nodes c)) c nm"

text \<open>
  \<open>build_static_cfg\<close>. The instruction list \<open>sva\<close> is what the external disassembler made
  of the bytecode when the builder was constructed.
\<close>

definition static_nodes :: "string \<Rightarrow> block list \<Rightarrow> node_map \<times> cfg" where
  "static_nodes contract_bytecode contract_blocks =
     create_nodes contract_blocks Map.empty
       (CFG (''static_complete_'' @ static_contract_address contract_bytecode contract_blocks))"

text \<open>The CFG after phase 2, before the pruning.\<close>

definition static_edges :: "string \<Rightarrow> instruction list \<Rightarrow> block list \<Rightarrow> py_error + cfg" where
  "static_edges contract_bytecode sva contract_blocks =
     (case static_nodes contract_bytecode contract_blocks of
        (nm, c0) \<Rightarrow> synthesize_edges sva contract_blocks nm contract_blocks c0)"

definition build_static_cfg :: "string \<Rightarrow> instruction list \<Rightarrow> block list \<Rightarrow> py_error + cfg" where
  "build_static_cfg contract_bytecode sva contract_blocks =
     (case static_nodes contract_bytecode contract_blocks of
        (nm, c0) \<Rightarrow>
          (case synthesize_edges sva contract_blocks nm contract_blocks c0 of
             Inl e \<Rightarrow> Inl e
           | Inr c1 \<Rightarrow>
               (case remove_unreachable_instruction_blocks c1 nm of
                  Inl e \<Rightarrow> Inl e
                | Inr (c2, nm') \<Rightarrow> Inr c2)))"

section \<open>cfg_transaction.py and cfg_contract.py: the dynamic builders\<close>

text \<open>A \<open>StandardizedStep\<close> and a \<open>StandardizedTrace\<close> (evm_information.py).\<close>

record standardized_step =
  step_address :: string
  step_pc :: string
  opcode :: string
  step_stack :: "string list"

record standardized_trace =
  trace_tx_hash :: string
  steps :: "standardized_step list"

text \<open>
  The local state of a builder while it walks the steps: the CFG, \<open>processed_nodes\<close>,
  \<open>current_node\<close>, and the warnings printed so far (each recorded by the step index it
  reports).
\<close>

record build_state =
  st_cfg :: cfg
  processed_nodes :: node_map
  current_node :: block_node
  warnings :: "nat list"

text \<open>\<open>self.split_opcodes\<close> of \<open>CFGConstructor\<close> and of \<open>ContractCFGConnector\<close>.\<close>

definition split_opcodes :: "string list" where
  "split_opcodes =
     [''JUMP'', ''JUMPI'', ''CALL'', ''CALLCODE'', ''DELEGATECALL'', ''STATICCALL'',
      ''CREATE'', ''CREATE2'', ''STOP'', ''RETURN'', ''REVERT'', ''INVALID'', ''SELFDESTRUCT'']"

definition contract_split_opcodes :: "string list" where
  "contract_split_opcodes =
     [''JUMP'', ''JUMPI'', ''CALL'', ''CALLCODE'', ''DELEGATECALL'', ''STATICCALL'',
      ''CREATE'', ''CREATE2'', ''STOP'', ''RETURN'', ''REVERT'', ''INVALID'', ''SELFdestruct'']"

text \<open>\<open>_find_base_block\<close> (the same in both classes): lookup by (address, start_pc).\<close>

definition find_base_block :: "block list \<Rightarrow> string \<Rightarrow> string \<Rightarrow> py_error + block" where
  "find_base_block blocks addr pc =
     (case base_block_map blocks (addr, pc) of
        Some b \<Rightarrow> Inr b
      | None \<Rightarrow> Inl ValueError)"

text \<open>
  The lookup of \<open>ContractCFGConnector\<close>: first \<open>self.pc_to_start_pc[(address, pc)]\<close>
  (\<open>KeyError\<close>), then \<open>_find_base_block\<close> on the start pc.
\<close>

definition contract_find_block :: "block list \<Rightarrow> string \<Rightarrow> string \<Rightarrow> py_error + block" where
  "contract_find_block contract_blocks addr pc =
     (case pc_to_start_pc contract_blocks (addr, pc) of
        None \<Rightarrow> Inl KeyError
      | Some spc \<Rightarrow> find_base_block contract_blocks addr spc)"

text \<open>\<open>_get_edge_type\<close> (the same in both classes).\<close>

definition get_edge_type :: "string \<Rightarrow> string" where
  "get_edge_type opc =
     (if opc \<in> set [''JUMP'', ''JUMPI''] then ''JUMP''
      else if opc \<in> set [''CALL'', ''CALLCODE'', ''DELEGATECALL'', ''STATICCALL''] then ''CALL''
      else if opc \<in> set [''RETURN'', ''REVERT''] then ''RETURN''
      else if opc = ''SELFDESTRUCT'' then ''DESTRUCT''
      else if opc \<in> set [''STOP'', ''INVALID''] then ''TERMINATE''
      else if opc \<in> set [''CREATE'', ''CREATE2''] then ''CREATE''
      else ''UNKNOWN'')"

text \<open>
  The tail of the loop body once the next block is found: reuse or create its node, add
  the edge from the current node, make it the current node.
\<close>

definition enter_block :: "build_state \<Rightarrow> string \<Rightarrow> block \<Rightarrow> build_state" where
  "enter_block st current_opcode next_base_block =
     (case processed_nodes st (block_key next_base_block) of
        Some next_node \<Rightarrow>
          st\<lparr>st_cfg := add_edge (st_cfg st) (current_node st) next_node
                         (get_edge_type current_opcode),
             current_node := next_node\<rparr>
      | None \<Rightarrow>
          (let next_node = BlockNode next_base_block
           in st\<lparr>st_cfg := add_edge (add_node (st_cfg st) next_node) (current_node st) next_node
                              (get_edge_type current_opcode),
                 processed_nodes := (processed_nodes st)(block_key next_base_block \<mapsto> next_node),
                 current_node := next_node\<rparr>))"

text \<open>
  The \<open>while current_step_idx < len(steps)\<close> loop. Its text is the same in
  \<open>construct_cfg\<close> and \<open>connect_contract_cfg\<close> but for the set of split opcodes and the
  block lookup, which are the parameters \<open>split\<close> and \<open>lookup\<close> here.
\<close>

function walk_steps ::
  "string list \<Rightarrow> (string \<Rightarrow> string \<Rightarrow> py_error + block) \<Rightarrow> standardized_step list
   \<Rightarrow> nat \<Rightarrow> build_state \<Rightarrow> build_state" where
  "walk_steps split lookup stps current_step_idx st =
     (if current_step_idx < length stps then
        (if opcode (stps ! current_step_idx) \<in> set split then
           (if current_step_idx + 1 \<ge> length stps then st
            else
              (case lookup (step_address (stps ! (current_step_idx + 1)))
                           (step_pc (stps ! (current_step_idx + 1))) of
                 Inl e \<Rightarrow>
                   walk_steps split lookup stps (current_step_idx + 1)
                     (st\<lparr>warnings := warnings st @ [current_step_idx + 1]\<rparr>)
               | Inr next_base_block \<Rightarrow>
                   walk_steps split lookup stps (current_step_idx + 1)
                     (enter_block st (opcode (stps ! current_step_idx)) next_base_block)))
         else walk_steps split lookup stps (current_step_idx + 1) st)
      else st)"
  by pat_completeness auto
termination
  by (relation "measure (\<lambda>(split, lookup, stps, i, st). length stps - i)") auto

declare walk_steps.simps [simp del]

text \<open>The state after the first node has been created.\<close>

definition first_state :: "cfg \<Rightarrow> block \<Rightarrow> build_state" where
  "first_state c current_base_block =
     (let node = BlockNode current_base_block
      in \<lparr>st_cfg = add_node c node,
          processed_nodes = [block_key current_base_block \<mapsto> node],
          current_node = node,
          warnings = []\<rparr>)"

text \<open>
  \<open>CFGConstructor.construct_cfg\<close>: the result is the CFG together with the warnings
  printed; a failed lookup of the first step is re-raised as \<open>RuntimeError\<close>.
\<close>

definition construct_cfg :: "block list \<Rightarrow> standardized_trace \<Rightarrow> py_error + (cfg \<times> nat list)" where
  "construct_cfg all_base_blocks trace =
     (let c = CFG (trace_tx_hash trace); stps = steps trace
      in if stps = [] then Inr (c, [])
         else
           (case find_base_block all_base_blocks (step_address (stps ! 0)) (step_pc (stps ! 0)) of
              Inl e \<Rightarrow> Inl RuntimeError
            | Inr current_base_block \<Rightarrow>
                (let st = walk_steps split_opcodes (find_base_block all_base_blocks) stps 0
                            (first_state c current_base_block)
                 in Inr (st_cfg st, warnings st))))"

text \<open>\<open>ContractCFGConnector.connect_contract_cfg\<close>.\<close>

definition contract_address_of :: "block list \<Rightarrow> string" where
  "contract_address_of contract_blocks =
     (case contract_blocks of b # _ \<Rightarrow> address b | [] \<Rightarrow> [])"

definition connect_contract_cfg ::
  "block list \<Rightarrow> standardized_step list \<Rightarrow> py_error + (cfg \<times> nat list)" where
  "connect_contract_cfg contract_blocks contract_steps =
     (let c = CFG (''contract_'' @ contract_address_of contract_blocks)
      in if contract_blocks = [] \<or> contract_steps = [] then Inr (c, [])
         else
           (case contract_find_block contract_blocks (step_address (contract_steps ! 0))
                   (step_pc (contract_steps ! 0)) of
              Inl e \<Rightarrow> Inl RuntimeError
            | Inr current_base_block \<Rightarrow>
                (let st = walk_steps contract_split_opcodes (contract_find_block contract_blocks)
                            contract_steps 0 (first_state c current_base_block)
                 in Inr (st_cfg st, warnings st))))"

section \<open>evm_information.py: TraceFormatter\<close>

text \<open>
  A record of \<open>structLogs\<close> as the loop reads it: \<open>step.get("pc", 0)\<close>,
  \<open>step.get("op", "")\<close>, \<open>step.get("stack", [])\<close>.
\<close>

record raw_step =
  raw_pc :: int
  raw_op :: string
  raw_stack :: "string list"

text \<open>\<open>str.upper\<close> and \<open>str.lower\<close> on ASCII text.\<close>

definition py_upper :: "string \<Rightarrow> string" where
  "py_upper s =
     map (\<lambda>c. case map_of (zip ''abcdefghijklmnopqrstuvwxyz'' ''ABCDEFGHIJKLMNOPQRSTUVWXYZ'') c of
                 None \<Rightarrow> c | Some u \<Rightarrow> u) s"

definition py_lower :: "string \<Rightarrow> string" where
  "py_lower s =
     map (\<lambda>c. case map_of (zip ''ABCDEFGHIJKLMNOPQRSTUVWXYZ'' ''abcdefghijklmnopqrstuvwxyz'') c of
                 None \<Rightarrow> c | Some l \<Rightarrow> l) s"

text \<open>
  \<open>_normalize_address\<close>. \<open>Web3.to_checksum_address\<close> belongs to an external library and
  is the parameter \<open>to_checksum_address\<close>: \<open>None\<close> where it raises.
\<close>

definition normalize_address :: "(string \<Rightarrow> string option) \<Rightarrow> string \<Rightarrow> string" where
  "normalize_address to_checksum_address addr =
     (if addr = [] then []
      else case to_checksum_address addr of
             None \<Rightarrow> []
           | Some checksum_addr \<Rightarrow> py_lower checksum_addr)"

definition normalize_pc :: "int \<Rightarrow> string" where
  "normalize_pc pc = to_hex pc"

definition normalize_stack :: "string list \<Rightarrow> string list" where
  "normalize_stack rs =
     map (\<lambda>item. if item = [] then ''0x''
                 else if startswith item ''0x'' then item
                 else ''0x'' @ item) rs"

text \<open>The variables of the loop of \<open>get_standardized_trace\<close>.\<close>

record ingest_state =
  current_address :: string
  next_address :: string
  call_stack :: "string list"
  out_steps :: "standardized_step list"

definition is_call_opcode :: "string \<Rightarrow> bool" where
  "is_call_opcode opc = (opc \<in> set [''CALL'', ''CALLCODE'', ''DELEGATECALL'', ''STATICCALL''])"

text \<open>
  Branches 1 to 4 of the loop body: the update of \<open>next_address\<close> and \<open>call_stack\<close>
  by the opcode.
\<close>

definition address_update :: "(string \<Rightarrow> string option) \<Rightarrow> ingest_state \<Rightarrow> string \<Rightarrow> string list \<Rightarrow> ingest_state" where
  "address_update to_checksum_address s opc rs =
     (if is_call_opcode opc then
        (if length rs \<ge> 2 then
           (let to_address = normalize_address to_checksum_address (rs ! (length rs - 2))
            in if to_address \<noteq> [] then
                 s\<lparr>call_stack := call_stack s @ [current_address s],
                   next_address := to_address\<rparr>
               else s)
         else s)
      else if opc \<in> set [''CREATE'', ''CREATE2''] then s
      else if opc \<in> set [''STOP'', ''RETURN'', ''REVERT'', ''INVALID'', ''SELFDESTRUCT'']
              \<and> length (call_stack s) > 1 then
        s\<lparr>next_address := last (call_stack s), call_stack := butlast (call_stack s)\<rparr>
      else s\<lparr>next_address := current_address s\<rparr>)"

text \<open>
  The whole loop body: update by the opcode, append the step labelled with
  \<open>current_address\<close>, then \<open>current_address = next_address\<close>.
\<close>

definition ingest_step :: "(string \<Rightarrow> string option) \<Rightarrow> ingest_state \<Rightarrow> raw_step \<Rightarrow> ingest_state" where
  "ingest_step to_checksum_address s step =
     (let opc = py_upper (raw_op step);
          s1 = address_update to_checksum_address s opc (raw_stack step);
          s2 = s1\<lparr>out_steps := out_steps s1 @
                     [\<lparr>step_address = current_address s1, step_pc = normalize_pc (raw_pc step),
                       opcode = opc, step_stack = normalize_stack (raw_stack step)\<rparr>]\<rparr>
      in s2\<lparr>current_address := next_address s2\<rparr>)"

definition initial_ingest_state :: "(string \<Rightarrow> string option) \<Rightarrow> string \<Rightarrow> ingest_state" where
  "initial_ingest_state to_checksum_address tx_to =
     (let initial_address = normalize_address to_checksum_address tx_to
      in \<lparr>current_address = initial_address, next_address = initial_address,
          call_stack = (if initial_address \<noteq> [] then [initial_address] else []),
          out_steps = []\<rparr>)"

text \<open>The loop over \<open>struct_logs\<close>, from the state set up before it.\<close>

definition ingest_loop :: "(string \<Rightarrow> string option) \<Rightarrow> string \<Rightarrow> raw_step list \<Rightarrow> ingest_state" where
  "ingest_loop to_checksum_address tx_to struct_logs =
     foldl (ingest_step to_checksum_address)
       (initial_ingest_state to_checksum_address tx_to) struct_logs"

text \<open>
  \<open>get_standardized_trace\<close>, from the transaction's \<open>to\<close> field and the \<open>structLogs\<close> that
  the node returned.
\<close>

definition get_standardized_trace ::
  "(string \<Rightarrow> string option) \<Rightarrow> string \<Rightarrow> string \<Rightarrow> raw_step list \<Rightarrow> standardized_trace" where
  "get_standardized_trace to_checksum_address tx_to h struct_logs =
     \<lparr>trace_tx_hash = h,
      steps = out_steps (ingest_loop to_checksum_address tx_to struct_logs)\<rparr>"

section \<open>Notions of the specification and concrete inputs\<close>

text \<open>
  The opcodes the analyzer interprets: the conditions of the first five branches of its
  loop (PUSHn, DUPn, SWAPn, POP, ADD, SUB, MUL, DIV).
\<close>

definition supported_opcode :: "string \<Rightarrow> bool" where
  "supported_opcode nm =
     (startswith nm ''PUSH'' \<or> startswith nm ''DUP'' \<or> startswith nm ''SWAP''
      \<or> nm = ''POP'' \<or> nm \<in> set [''ADD'', ''SUB'', ''MUL'', ''DIV''])"

definition mk_instr :: "int \<Rightarrow> string \<Rightarrow> int \<Rightarrow> instruction" where
  "mk_instr p n v = \<lparr>instr_pc = p, instr_name = n, instr_operand = v\<rparr>"

text \<open>
  Scenario S2 of the specification: bytecode \<open>6001 6008 57 00 5B 00\<close>, that is
  PUSH1 1, PUSH1 8, JUMPI, STOP, JUMPDEST, STOP.
\<close>

definition s2_instructions :: "instruction list" where
  "s2_instructions =
     [mk_instr 0 ''PUSH1'' 1, mk_instr 2 ''PUSH1'' 8, mk_instr 4 ''JUMPI'' 0,
      mk_instr 5 ''STOP'' 0, mk_instr 6 ''JUMPDEST'' 0, mk_instr 7 ''STOP'' 0]"

text \<open>Bytecode \<open>5B 6005 56\<close>: JUMPDEST, PUSH1 5, JUMP.\<close>

definition jumpdest_push_jump :: "instruction list" where
  "jumpdest_push_jump =
     [mk_instr 0 ''JUMPDEST'' 0, mk_instr 1 ''PUSH1'' 5, mk_instr 3 ''JUMP'' 0]"

text \<open>
  One contract at address \<open>0xaa\<close> with the blocks SELFDESTRUCT at pc 0 and STOP at pc 1,
  and the two steps that execute them.
\<close>

definition mk_block :: "string \<Rightarrow> (string \<times> string) list \<Rightarrow> block" where
  "mk_block spc ins = \<lparr>address = ''0xaa'', start_pc = spc, instructions = ins\<rparr>"

definition mk_step :: "string \<Rightarrow> string \<Rightarrow> standardized_step" where
  "mk_step pc opc = \<lparr>step_address = ''0xaa'', step_pc = pc, opcode = opc, step_stack = []\<rparr>"

definition selfdestruct_blocks :: "block list" where
  "selfdestruct_blocks =
     [mk_block ''0x0'' [(''0x0'', ''SELFDESTRUCT'')], mk_block ''0x1'' [(''0x1'', ''STOP'')]]"

definition selfdestruct_steps :: "standardized_step list" where
  "selfdestruct_steps = [mk_step ''0x0'' ''SELFDESTRUCT'', mk_step ''0x1'' ''STOP'']"

text \<open>Steps in which the step after the SELFDESTRUCT is at a pc (7) of no block.\<close>

definition unknown_second_steps :: "standardized_step list" where
  "unknown_second_steps =
     [mk_step ''0x0'' ''SELFDESTRUCT'', mk_step ''0x7'' ''STOP'', mk_step ''0x1'' ''STOP'']"

text \<open>Steps whose first step is at a pc (7) of no block.\<close>

definition unknown_first_steps :: "standardized_step list" where
  "unknown_first_steps = [mk_step ''0x7'' ''STOP'', mk_step ''0x1'' ''STOP'']"


text \<open>
  A stand-in for the external \<open>to_checksum_address\<close> in the concrete traces below: it
  accepts the text of a 20-byte address (\<open>0x\<close> and 40 more characters) and rejects
  everything else.
\<close>

definition checksum_stub :: "string \<Rightarrow> string option" where
  "checksum_stub a = (if length a = 42 \<and> startswith a ''0x'' then Some a else None)"

definition addr_a :: string where
  "addr_a = ''0xaaaaaaaaaaaaaaaaaaaaaaaaaaaaaaaaaaaaaaaa''"

definition addr_b :: string where
  "addr_b = ''0xbbbbbbbbbbbbbbbbbbbbbbbbbbbbbbbbbbbbbbbb''"

definition mk_raw :: "int \<Rightarrow> string \<Rightarrow> string list \<Rightarrow> raw_step" where
  "mk_raw p opc rs = \<lparr>raw_pc = p, raw_op = opc, raw_stack = rs\<rparr>"

text \<open>
  A CALL whose second-from-top stack item is the word \<open>0x1f\<close>, which is not the text of
  an address, followed by a STOP.
\<close>

definition short_callee_logs :: "raw_step list" where
  "short_callee_logs =
     [mk_raw 0 ''CALL'' [''0x0'', ''0x1f'', ''0xffff''], mk_raw 1 ''STOP'' []]"

text \<open>
  A CALL to \<open>addr_b\<close>, the callee's STOP, then in the caller a CALL with the item \<open>0x1f\<close>
  and a STOP.
\<close>

definition call_logs :: "raw_step list" where
  "call_logs =
     [mk_raw 0 ''CALL'' [''0x0'', addr_b, ''0xffff''], mk_raw 0 ''STOP'' [],
      mk_raw 1 ''CALL'' [''0x0'', ''0x1f'', ''0xffff''], mk_raw 2 ''STOP'' []]"

text \<open>
  A CFG with further edges appended and the counter advanced past them, and the edge
  that the \<open>try\<close> block of the edge loop appends (none or one).
\<close>

definition added :: "cfg \<Rightarrow> edge list \<Rightarrow> cfg" where
  "added c es = c\<lparr>edges := edges c @ es, next_edge_id := next_edge_id c + length es\<rparr>"

definition try_connect_edges ::
  "block list \<Rightarrow> node_map \<Rightarrow> nat \<Rightarrow> block_node \<Rightarrow> string \<Rightarrow> string \<Rightarrow> string \<Rightarrow> bool \<Rightarrow> edge list" where
  "try_connect_edges contract_blocks nm next_id cur addr pc_hex et no_self_loop =
     (case find_block_by_pc contract_blocks addr pc_hex of
        Inl e \<Rightarrow> []
      | Inr b \<Rightarrow>
          (case nm (block_key b) of
             None \<Rightarrow> []
           | Some n \<Rightarrow>
               if no_self_loop \<and> node_key n = node_key cur then []
               else [\<lparr>edge_id = next_id, source = cur, target = n, edge_type = et\<rparr>]))"

text \<open>
  Edges numbered consecutively from \<open>n\<close> that all leave the node \<open>cur\<close>.
\<close>

definition fresh_edges :: "nat \<Rightarrow> block_node \<Rightarrow> edge list \<Rightarrow> bool" where
  "fresh_edges n cur es \<longleftrightarrow>
     map edge_id es = [n ..< n + length es] \<and> (\<forall>e\<in>set es. source e = cur)"

text \<open>A node whose block begins with a JUMPDEST instruction.\<close>

definition begins_with_jumpdest :: "block_node \<Rightarrow> bool" where
  "begins_with_jumpdest n =
     (case instructions (base_block n) of
        [] \<Rightarrow> False
      | first_instruction # _ \<Rightarrow> snd first_instruction = ''JUMPDEST'')"

text \<open>
  Edge ids that are the positions of the edges in the list, with the counter at the
  number of edges.
\<close>

definition contiguous_ids :: "cfg \<Rightarrow> bool" where
  "contiguous_ids c \<longleftrightarrow>
     map edge_id (edges c) = [0 ..< length (edges c)] \<and> next_edge_id c = length (edges c)"

text \<open>
  Bytecode \<open>6004 57 00 5B 00\<close>: PUSH1 4, JUMPI, STOP, JUMPDEST, STOP, its three blocks,
  and the CFG expected after phase 2.
\<close>

definition jumpi_instructions :: "instruction list" where
  "jumpi_instructions =
     [mk_instr 0 ''PUSH1'' 4, mk_instr 2 ''JUMPI'' 0, mk_instr 3 ''STOP'' 0,
      mk_instr 4 ''JUMPDEST'' 0, mk_instr 5 ''STOP'' 0]"

definition jumpi_block :: block where
  "jumpi_block = mk_block ''0x0'' [(''0x0'', ''PUSH1''), (''0x2'', ''JUMPI'')]"

definition stop_block :: block where
  "stop_block = mk_block ''0x3'' [(''0x3'', ''STOP'')]"

definition jumpdest_block :: block where
  "jumpdest_block = mk_block ''0x4'' [(''0x4'', ''JUMPDEST''), (''0x5'', ''STOP'')]"

definition jumpi_blocks :: "block list" where
  "jumpi_blocks = [jumpi_block, stop_block, jumpdest_block]"

definition jumpi_cfg :: cfg where
  "jumpi_cfg =
     \<lparr>tx_hash = ''static_complete_0xaa'',
      nodes = [BlockNode jumpi_block, BlockNode stop_block, BlockNode jumpdest_block],
      edges = [\<lparr>edge_id = 0, source = BlockNode jumpi_block, target = BlockNode stop_block,
                 edge_type = ''CONDITION_FALSE''\<rparr>,
               \<lparr>edge_id = 1, source = BlockNode jumpi_block, target = BlockNode jumpdest_block,
                 edge_type = ''CONDITION_TRUE''\<rparr>],
      next_edge_id = 2\<rparr>"

text \<open>
  Four blocks STOP, CALL, CALL, STOP at pc 0 to 3: the second is unreachable and has an
  edge to the third. The CFG after phase 2 and the CFG after pruning.
\<close>

definition pruned_blocks :: "block list" where
  "pruned_blocks =
     [mk_block ''0x0'' [(''0x0'', ''STOP'')], mk_block ''0x1'' [(''0x1'', ''CALL'')],
      mk_block ''0x2'' [(''0x2'', ''CALL'')], mk_block ''0x3'' [(''0x3'', ''STOP'')]]"

definition unpruned_cfg :: cfg where
  "unpruned_cfg =
     \<lparr>tx_hash = ''static_complete_0xaa'',
      nodes = map BlockNode pruned_blocks,
      edges = [\<lparr>edge_id = 0, source = BlockNode (mk_block ''0x1'' [(''0x1'', ''CALL'')]),
                 target = BlockNode (mk_block ''0x2'' [(''0x2'', ''CALL'')]),
                 edge_type = ''CALL''\<rparr>,
               \<lparr>edge_id = 1, source = BlockNode (mk_block ''0x2'' [(''0x2'', ''CALL'')]),
                 target = BlockNode (mk_block ''0x3'' [(''0x3'', ''STOP'')]),
                 edge_type = ''CALL''\<rparr>],
      next_edge_id = 2\<rparr>"

definition pruned_cfg :: cfg where
  "pruned_cfg =
     \<lparr>tx_hash = ''static_complete_0xaa'',
      nodes = [BlockNode (mk_block ''0x0'' [(''0x0'', ''STOP'')]),
               BlockNode (mk_block ''0x2'' [(''0x2'', ''CALL'')]),
               BlockNode (mk_block ''0x3'' [(''0x3'', ''STOP'')])],
      edges = [\<lparr>edge_id = 1, source = BlockNode (mk_block ''0x2'' [(''0x2'', ''CALL'')]),
                 target = BlockNode (mk_block ''0x3'' [(''0x3'', ''STOP'')]),
                 edge_type = ''CALL''\<rparr>],
      next_edge_id = 2\<rparr>"

definition pruned_instructions :: "instruction list" where
  "pruned_instructions =
     [mk_instr 0 ''STOP'' 0, mk_instr 1 ''CALL'' 0, mk_instr 2 ''CALL'' 0, mk_instr 3 ''STOP'' 0]"

text \<open>
  The CFG of the transaction builder on the SELFDESTRUCT, STOP steps, and the steps STOP
  (at pc 1), SELFDESTRUCT (at pc 0) with the CFG of the per-contract builder on them.
\<close>

definition destruct_cfg :: cfg where
  "destruct_cfg =
     \<lparr>tx_hash = ''0x01'',
      nodes = [BlockNode (mk_block ''0x0'' [(''0x0'', ''SELFDESTRUCT'')]),
               BlockNode (mk_block ''0x1'' [(''0x1'', ''STOP'')])],
      edges = [\<lparr>edge_id = 0,
                 source = BlockNode (mk_block ''0x0'' [(''0x0'', ''SELFDESTRUCT'')]),
                 target = BlockNode (mk_block ''0x1'' [(''0x1'', ''STOP'')]),
                 edge_type = ''DESTRUCT''\<rparr>],
      next_edge_id = 1\<rparr>"

definition stop_call_steps :: "standardized_step list" where
  "stop_call_steps = [mk_step ''0x1'' ''STOP'', mk_step ''0x0'' ''SELFDESTRUCT'']"

definition contract_cfg :: cfg where
  "contract_cfg =
     \<lparr>tx_hash = ''contract_0xaa'',
      nodes = [BlockNode (mk_block ''0x1'' [(''0x1'', ''STOP'')]),
               BlockNode (mk_block ''0x0'' [(''0x0'', ''SELFDESTRUCT'')])],
      edges = [\<lparr>edge_id = 0,
                 source = BlockNode (mk_block ''0x1'' [(''0x1'', ''STOP'')]),
                 target = BlockNode (mk_block ''0x0'' [(''0x0'', ''SELFDESTRUCT'')]),
                 edge_type = ''TERMINATE''\<rparr>],
      next_edge_id = 1\<rparr>"

text \<open>
  The instructions before the jump site in the order in which the loop of
  \<open>get_jump_target\<close> takes them: \<open>reversed(self.instructions[:index])\<close>.
\<close>

definition scan_sequence :: "instruction list \<Rightarrow> instruction list" where
  "scan_sequence before = rev before"

text \<open>
  A CFG all of whose nodes, and all of whose edges' end points, wrap blocks of the given
  block list; and a builder state that holds such a CFG and refers to such nodes only.
\<close>

definition known_cfg :: "block list \<Rightarrow> cfg \<Rightarrow> bool" where
  "known_cfg blocks c \<longleftrightarrow>
     (\<forall>n\<in>set (nodes c). base_block n \<in> set blocks)
     \<and> (\<forall>e\<in>set (edges c). base_block (source e) \<in> set blocks
                               \<and> base_block (target e) \<in> set blocks)"

definition known_state :: "block list \<Rightarrow> build_state \<Rightarrow> bool" where
  "known_state blocks st \<longleftrightarrow>
     known_cfg blocks (st_cfg st)
     \<and> base_block (current_node st) \<in> set blocks
     \<and> (\<forall>k n. processed_nodes st k = Some n \<longrightarrow> base_block n \<in> set blocks)"

text \<open>
  The CFGs of the two builders on the steps SELFDESTRUCT (pc 0), STOP (pc 7, of no
  block), STOP (pc 1).
\<close>

definition skip_cfg :: "string \<Rightarrow> cfg" where
  "skip_cfg h =
     \<lparr>tx_hash = h,
      nodes = [BlockNode (mk_block ''0x0'' [(''0x0'', ''SELFDESTRUCT'')]),
               BlockNode (mk_block ''0x1'' [(''0x1'', ''STOP'')])],
      edges = [\<lparr>edge_id = 0,
                 source = BlockNode (mk_block ''0x0'' [(''0x0'', ''SELFDESTRUCT'')]),
                 target = BlockNode (mk_block ''0x1'' [(''0x1'', ''STOP'')]),
                 edge_type = ''TERMINATE''\<rparr>],
      next_edge_id = 1\<rparr>"

section \<open>The stack-value analyzer\<close>

lemma sim_step_unsupported:
  "\<not> supported_opcode (instr_name i) \<Longrightarrow> sim_step i stack = Break"
  by (simp add: supported_opcode_def sim_step_def)

lemma sim_loop_stops_at_break:
  "(\<And>s. sim_step i s = Break) \<Longrightarrow> sim_loop (xs @ i # ys) stack = sim_loop xs stack"
  by (induction xs arbitrary: stack) (auto split: sim.splits)

lemma list_index_append_notin:
  "x \<notin> set xs \<Longrightarrow> list_index (xs @ x # ys) x = Some (length xs)"
  by (induction xs) auto

lemma instr_by_pc_distinct:
  assumes "distinct (map instr_pc instrs)" and "j \<in> set instrs"
  shows "instr_by_pc instrs (instr_pc j) = Some j"
proof -
  let ?kv = "rev (map (\<lambda>i. (instr_pc i, i)) instrs)"
  have "distinct (map fst ?kv)"
    using assms(1) by (simp add: rev_map[symmetric] comp_def)
  moreover have "(instr_pc j, j) \<in> set ?kv"
    using assms(2) by auto
  ultimately show ?thesis
    unfolding instr_by_pc_def by (rule map_of_is_SomeI)
qed

text \<open>
  C1 (code defect). The specification has the instructions before the jump site simulated
  in their original forward order; \<open>get_jump_target\<close> runs its loop over the reversed
  prefix. On scenario S2 (PUSH1 1, PUSH1 8, JUMPI) the code resolves the target 1, the
  forward simulation resolves 8.
\<close>

theorem get_jump_target_scans_in_reverse:
  "get_jump_target s2_instructions 4 = Inr (Some 1)
   \<and> get_jump_target_forward s2_instructions 4 = Inr (Some 8)"
  by (simp add: get_jump_target_def get_jump_target_forward_def s2_instructions_def
      mk_instr_def instr_by_pc_def stack_top_def sim_step_def startswith_def)

text \<open>
  C2, as stated, fails: an unsupported opcode before the jump site does not make the
  analyzer report an unknown target. In JUMPDEST, PUSH1 5, JUMP the opcode JUMPDEST is
  unsupported, and the target 5 is returned.
\<close>

theorem unsupported_opcode_does_not_abort:
  "instr_name (jumpdest_push_jump ! 0) = ''JUMPDEST''
   \<and> \<not> supported_opcode ''JUMPDEST''
   \<and> get_jump_target jumpdest_push_jump 3 = Inr (Some 5)"
  by (simp add: get_jump_target_def jumpdest_push_jump_def supported_opcode_def
      mk_instr_def instr_by_pc_def stack_top_def sim_step_def startswith_def)

text \<open>
  C2, amended. An opcode outside the supported set does not abort the analysis: it ends
  the scan of the instructions before the jump site. When the scan, in the order in
  which the loop takes the instructions, meets an unsupported instruction \<open>i\<close> after the
  instructions \<open>scanned\<close>, the result is the top of the abstract stack built from
  \<open>scanned\<close> alone; the instructions not yet scanned play no part. The target is
  unknown exactly when that stack is empty or one of the scanned operations underflowed.
\<close>

theorem unsupported_opcode_stops_scan:
  assumes d: "distinct (map instr_pc (before @ j # post))"
    and j: "instr_name j \<in> set [''JUMP'', ''JUMPI'']"
    and s: "scan_sequence before = scanned @ i # unscanned"
    and u: "\<not> supported_opcode (instr_name i)"
  shows "get_jump_target (before @ j # post) (instr_pc j) = stack_top (sim_loop scanned [])
       \<and> (get_jump_target (before @ j # post) (instr_pc j) = Inr None
            \<longleftrightarrow> sim_loop scanned [] = Inr None \<or> sim_loop scanned [] = Inr (Some []))"
proof -
  let ?is = "before @ j # post"
  have by_pc: "instr_by_pc ?is (instr_pc j) = Some j"
    using d by (intro instr_by_pc_distinct) auto
  have "j \<notin> set before"
    using d by (auto simp: image_iff)
  then have idx: "list_index ?is j = Some (length before)"
    by (rule list_index_append_notin)
  have "sim_loop (rev (take (length before) ?is)) [] = sim_loop (scanned @ i # unscanned) []"
    using s by (simp add: scan_sequence_def)
  also have "\<dots> = sim_loop scanned []"
    using u by (intro sim_loop_stops_at_break sim_step_unsupported)
  finally have eq: "get_jump_target ?is (instr_pc j) = stack_top (sim_loop scanned [])"
    using by_pc idx j unfolding get_jump_target_def by simp
  have "stack_top (sim_loop scanned []) = Inr None
        \<longleftrightarrow> sim_loop scanned [] = Inr None \<or> sim_loop scanned [] = Inr (Some [])"
    by (auto simp: stack_top_def split: sum.splits option.splits)
  with eq show ?thesis by simp
qed

theorem unsupported_opcode_stops_scan_witness:
  "distinct (map instr_pc ([mk_instr 0 ''PUSH1'' 9, mk_instr 2 ''SLOAD'' 0, mk_instr 3 ''PUSH1'' 7]
       @ mk_instr 5 ''JUMP'' 0 # [mk_instr 6 ''STOP'' 0]))
   \<and> instr_name (mk_instr 5 ''JUMP'' 0) \<in> set [''JUMP'', ''JUMPI'']
   \<and> scan_sequence [mk_instr 0 ''PUSH1'' 9, mk_instr 2 ''SLOAD'' 0, mk_instr 3 ''PUSH1'' 7]
       = [mk_instr 3 ''PUSH1'' 7] @ mk_instr 2 ''SLOAD'' 0 # [mk_instr 0 ''PUSH1'' 9]
   \<and> \<not> supported_opcode (instr_name (mk_instr 2 ''SLOAD'' 0))
   \<and> sim_loop [mk_instr 3 ''PUSH1'' 7] [] = Inr (Some [7])
   \<and> get_jump_target ([mk_instr 0 ''PUSH1'' 9, mk_instr 2 ''SLOAD'' 0, mk_instr 3 ''PUSH1'' 7]
       @ mk_instr 5 ''JUMP'' 0 # [mk_instr 6 ''STOP'' 0])
       (instr_pc (mk_instr 5 ''JUMP'' 0)) = Inr (Some 7)"
proof -
  have h1: "distinct (map instr_pc ([mk_instr 0 ''PUSH1'' 9, mk_instr 2 ''SLOAD'' 0,
       mk_instr 3 ''PUSH1'' 7] @ mk_instr 5 ''JUMP'' 0 # [mk_instr 6 ''STOP'' 0]))"
    by (simp add: mk_instr_def)
  have h2: "instr_name (mk_instr 5 ''JUMP'' 0) \<in> set [''JUMP'', ''JUMPI'']"
    by (simp add: mk_instr_def)
  have h3: "scan_sequence [mk_instr 0 ''PUSH1'' 9, mk_instr 2 ''SLOAD'' 0, mk_instr 3 ''PUSH1'' 7]
       = [mk_instr 3 ''PUSH1'' 7] @ mk_instr 2 ''SLOAD'' 0 # [mk_instr 0 ''PUSH1'' 9]"
    by (simp add: scan_sequence_def)
  have h4: "\<not> supported_opcode (instr_name (mk_instr 2 ''SLOAD'' 0))"
    by (simp add: mk_instr_def supported_opcode_def startswith_def)
  have v: "sim_loop [mk_instr 3 ''PUSH1'' 7] [] = Inr (Some [7])"
    by (simp add: mk_instr_def sim_step_def startswith_def)
  show ?thesis
    using h1 h2 h3 h4 v unsupported_opcode_stops_scan [OF h1 h2 h3 h4]
    by (simp add: stack_top_def)
qed

text \<open>
  C9. With at least two elements on the abstract stack, ADD, SUB, MUL and DIV pop two
  elements and push one result: the deeper element is the left operand, the popped top
  the right operand; DIV is integer division and gives 0 for the divisor 0.
\<close>

theorem arith_pops_two_pushes_result:
  assumes "2 \<le> length stack"
    and "instr_name i \<in> set [''ADD'', ''SUB'', ''MUL'', ''DIV'']"
  shows "sim_step i stack =
         Next (butlast (butlast stack) @
               [let left = last (butlast stack); right = last stack in
                if instr_name i = ''ADD'' then left + right
                else if instr_name i = ''SUB'' then left - right
                else if instr_name i = ''MUL'' then left * right
                else if right = 0 then 0 else left div right])"
  using assms by (auto simp: sim_step_def startswith_def arith_result_def Let_def)

theorem arith_pops_two_pushes_result_witness:
  "2 \<le> length [5, 20, 6 :: int]
   \<and> instr_name (mk_instr 0 ''DIV'' 0) \<in> set [''ADD'', ''SUB'', ''MUL'', ''DIV'']
   \<and> sim_step (mk_instr 0 ''DIV'' 0) [5, 20, 6] = Next [5, 3]"
  using arith_pops_two_pushes_result [of "[5, 20, 6]" "mk_instr 0 ''DIV'' 0"]
  by (simp add: mk_instr_def)


section \<open>The dynamic builders\<close>

lemma base_block_map_SomeD:
  "base_block_map blocks k = Some b \<Longrightarrow> b \<in> set blocks \<and> block_key b = k"
  by (auto simp: base_block_map_def dest!: map_of_SomeD)

text \<open>
  C6 (code defect). The split opcodes of the per-contract builder spell
  \<open>SELFdestruct\<close>, so a SELFDESTRUCT step is never treated as a terminator there: on the
  steps SELFDESTRUCT, STOP the per-contract builder adds no edge, while the transaction
  builder adds the DESTRUCT edge to the block of the following step.
\<close>

theorem contract_builder_drops_selfdestruct_edge:
  "connect_contract_cfg selfdestruct_blocks selfdestruct_steps
     = Inr (\<lparr>tx_hash = ''contract_0xaa'',
              nodes = [BlockNode (mk_block ''0x0'' [(''0x0'', ''SELFDESTRUCT'')])],
              edges = [], next_edge_id = 0\<rparr>, [])
   \<and> construct_cfg selfdestruct_blocks \<lparr>trace_tx_hash = ''0x01'', steps = selfdestruct_steps\<rparr>
     = Inr (\<lparr>tx_hash = ''0x01'',
              nodes = [BlockNode (mk_block ''0x0'' [(''0x0'', ''SELFDESTRUCT'')]),
                       BlockNode (mk_block ''0x1'' [(''0x1'', ''STOP'')])],
              edges = [\<lparr>edge_id = 0,
                         source = BlockNode (mk_block ''0x0'' [(''0x0'', ''SELFDESTRUCT'')]),
                         target = BlockNode (mk_block ''0x1'' [(''0x1'', ''STOP'')]),
                         edge_type = ''DESTRUCT''\<rparr>],
              next_edge_id = 1\<rparr>, [])"
  by code_simp

lemma walk_steps_reaches:
  "k \<le> i \<Longrightarrow> i + 1 < length stps \<Longrightarrow>
   \<exists>st'. walk_steps split lookup stps k st = walk_steps split lookup stps i st'
         \<and> set (warnings st) \<subseteq> set (warnings st')"
proof (induction "i - k" arbitrary: k st)
  case 0
  then show ?case by auto
next
  case (Suc d)
  then have k: "k < i" "k + 1 < length stps" "k < length stps" by auto
  have ih: "\<And>s. \<exists>st'. walk_steps split lookup stps (k + 1) s = walk_steps split lookup stps i st'
         \<and> set (warnings s) \<subseteq> set (warnings st')"
    using Suc.hyps(1)[of "k + 1"] Suc.hyps(2) Suc.prems by auto
  show ?case
  proof (cases "opcode (stps ! k) \<in> set split")
    case False
    then have "walk_steps split lookup stps k st = walk_steps split lookup stps (k + 1) st"
      using k by (subst walk_steps.simps) simp
    then show ?thesis using ih[of st] by auto
  next
    case True
    show ?thesis
    proof (cases "lookup (step_address (stps ! (k + 1))) (step_pc (stps ! (k + 1)))")
      case (Inl e)
      then have "walk_steps split lookup stps k st
          = walk_steps split lookup stps (k + 1) (st\<lparr>warnings := warnings st @ [k + 1]\<rparr>)"
        using k True by (subst walk_steps.simps) simp
      then show ?thesis using ih[of "st\<lparr>warnings := warnings st @ [k + 1]\<rparr>"] by auto
    next
      case (Inr b)
      then have "walk_steps split lookup stps k st
          = walk_steps split lookup stps (k + 1) (enter_block st (opcode (stps ! k)) b)"
        using k True by (subst walk_steps.simps) simp
      moreover have "warnings (enter_block st (opcode (stps ! k)) b) = warnings st"
        by (simp add: enter_block_def Let_def split: option.splits)
      ultimately show ?thesis using ih[of "enter_block st (opcode (stps ! k)) b"] by auto
    qed
  qed
qed

lemma walk_steps_warnings_mono:
  "set (warnings st) \<subseteq> set (warnings (walk_steps split lookup stps i st))"
proof (induction split lookup stps i st rule: walk_steps.induct)
  case (1 split lookup stps i st)
  have eb: "\<And>b. warnings (enter_block st (opcode (stps ! i)) b) = warnings st"
    by (simp add: enter_block_def Let_def split: option.splits)
  show ?case
    using 1 eb by (subst walk_steps.simps) (auto split: sum.splits)
qed

lemma walk_steps_skip:
  assumes "i + 1 < length stps" "opcode (stps ! i) \<in> set split"
    "lookup (step_address (stps ! (i + 1))) (step_pc (stps ! (i + 1))) = Inl e"
  shows "walk_steps split lookup stps i st
       = walk_steps split lookup stps (i + 1) (st\<lparr>warnings := warnings st @ [i + 1]\<rparr>)"
  using assms by (subst walk_steps.simps) simp

text \<open>
  C8. In the transaction builder, when the step after a terminator resolves to no known
  block, \<open>construct_cfg\<close> still returns a CFG (it does not raise), the warning for that
  step is among those it printed, and the iteration changes nothing but the warnings: the
  CFG (nodes and edges) and the current node stay as they are, and the walk goes on at the
  next index.
\<close>

theorem unknown_successor_block_is_skipped:
  assumes first: "find_base_block blocks (step_address (stps ! 0)) (step_pc (stps ! 0)) = Inr b0"
    and i: "i + 1 < length stps"
    and trm: "opcode (stps ! i) \<in> set split_opcodes"
    and unknown: "find_base_block blocks (step_address (stps ! (i + 1))) (step_pc (stps ! (i + 1))) = Inl e"
  shows "(\<exists>c w. construct_cfg blocks \<lparr>trace_tx_hash = h, steps = stps\<rparr> = Inr (c, w) \<and> i + 1 \<in> set w)
       \<and> walk_steps split_opcodes (find_base_block blocks) stps i st
           = walk_steps split_opcodes (find_base_block blocks) stps (i + 1)
               (st\<lparr>warnings := warnings st @ [i + 1]\<rparr>)"
proof
  let ?w = "walk_steps split_opcodes (find_base_block blocks) stps"
  have ne: "stps \<noteq> []" using i by auto
  obtain s where s: "?w 0 (first_state (CFG h) b0) = ?w i s"
    using walk_steps_reaches[of 0 i stps] i by blast
  have "?w i s = ?w (i + 1) (s\<lparr>warnings := warnings s @ [i + 1]\<rparr>)"
    using i trm unknown by (rule walk_steps_skip)
  moreover have "set (warnings (s\<lparr>warnings := warnings s @ [i + 1]\<rparr>))
      \<subseteq> set (warnings (?w (i + 1) (s\<lparr>warnings := warnings s @ [i + 1]\<rparr>)))"
    by (rule walk_steps_warnings_mono)
  ultimately have "i + 1 \<in> set (warnings (?w 0 (first_state (CFG h) b0)))"
    using s by auto
  then show "\<exists>c w. construct_cfg blocks \<lparr>trace_tx_hash = h, steps = stps\<rparr> = Inr (c, w) \<and> i + 1 \<in> set w"
    using first ne by (simp add: construct_cfg_def Let_def)
next
  show "walk_steps split_opcodes (find_base_block blocks) stps i st
           = walk_steps split_opcodes (find_base_block blocks) stps (i + 1)
               (st\<lparr>warnings := warnings st @ [i + 1]\<rparr>)"
    using i trm unknown by (rule walk_steps_skip)
qed

theorem unknown_successor_block_is_skipped_witness:
  "find_base_block selfdestruct_blocks (step_address (unknown_second_steps ! 0))
       (step_pc (unknown_second_steps ! 0)) = Inr (mk_block ''0x0'' [(''0x0'', ''SELFDESTRUCT'')])
   \<and> 0 + 1 < length unknown_second_steps
   \<and> opcode (unknown_second_steps ! 0) \<in> set split_opcodes
   \<and> find_base_block selfdestruct_blocks (step_address (unknown_second_steps ! (0 + 1)))
       (step_pc (unknown_second_steps ! (0 + 1))) = Inl ValueError
   \<and> (\<exists>c w. construct_cfg selfdestruct_blocks
                \<lparr>trace_tx_hash = ''0x01'', steps = unknown_second_steps\<rparr> = Inr (c, w)
            \<and> 0 + 1 \<in> set w)
   \<and> walk_steps split_opcodes (find_base_block selfdestruct_blocks) unknown_second_steps 0
        (first_state (CFG ''0x01'') (mk_block ''0x0'' [(''0x0'', ''SELFDESTRUCT'')]))
      = walk_steps split_opcodes (find_base_block selfdestruct_blocks) unknown_second_steps (0 + 1)
          ((first_state (CFG ''0x01'') (mk_block ''0x0'' [(''0x0'', ''SELFDESTRUCT'')]))
             \<lparr>warnings := warnings (first_state (CFG ''0x01'')
                  (mk_block ''0x0'' [(''0x0'', ''SELFDESTRUCT'')])) @ [0 + 1]\<rparr>)"
proof -
  have h1: "find_base_block selfdestruct_blocks (step_address (unknown_second_steps ! 0))
       (step_pc (unknown_second_steps ! 0)) = Inr (mk_block ''0x0'' [(''0x0'', ''SELFDESTRUCT'')])"
    by (simp add: find_base_block_def base_block_map_def selfdestruct_blocks_def
        unknown_second_steps_def mk_block_def mk_step_def block_key_def)
  have h2: "0 + 1 < length unknown_second_steps"
    by (simp add: unknown_second_steps_def)
  have h3: "opcode (unknown_second_steps ! 0) \<in> set split_opcodes"
    by (simp add: unknown_second_steps_def mk_step_def split_opcodes_def)
  have h4: "find_base_block selfdestruct_blocks (step_address (unknown_second_steps ! (0 + 1)))
       (step_pc (unknown_second_steps ! (0 + 1))) = Inl ValueError"
    by (simp add: find_base_block_def base_block_map_def selfdestruct_blocks_def
        unknown_second_steps_def mk_block_def mk_step_def block_key_def)
  show ?thesis
    using h1 h2 h3 h4 unknown_successor_block_is_skipped [OF h1 h2 h3 h4]
    by blast
qed

text \<open>
  C10, as stated, fails for the per-contract builder: with an empty block list every
  first step is at a pc of no known block, and the builder returns the empty CFG instead
  of raising.
\<close>

theorem first_step_unknown_returns_empty_cfg:
  "contract_find_block [] (step_address (unknown_first_steps ! 0))
       (step_pc (unknown_first_steps ! 0)) = Inl KeyError
   \<and> connect_contract_cfg [] unknown_first_steps = Inr (CFG ''contract_'', [])"
  by (simp add: contract_find_block_def pc_to_start_pc_def connect_contract_cfg_def
      contract_address_of_def)

lemma find_base_block_in:
  "find_base_block blocks a p = Inr b \<Longrightarrow> b \<in> set blocks"
  by (auto simp: find_base_block_def split: option.splits dest: base_block_map_SomeD)

lemma contract_find_block_in:
  "contract_find_block blocks a p = Inr b \<Longrightarrow> b \<in> set blocks"
  by (auto simp: contract_find_block_def split: option.splits dest: find_base_block_in)

lemma known_state_enter_block:
  "known_state blocks st \<Longrightarrow> b \<in> set blocks \<Longrightarrow>
   known_state blocks (enter_block st opc b)"
  by (auto simp: known_state_def known_cfg_def enter_block_def Let_def add_edge_def
      add_node_def BlockNode_def simp del: split_paired_All split: option.splits)

lemma known_state_walk_steps:
  "(\<forall>a p b. lookup a p = Inr b \<longrightarrow> b \<in> set blocks) \<Longrightarrow>
   known_state blocks st \<Longrightarrow>
   known_state blocks (walk_steps split lookup stps i st)"
proof (induction split lookup stps i st rule: walk_steps.induct)
  case (1 split lookup stps i st)
  have eb: "\<And>b. lookup (step_address (stps ! (i + 1))) (step_pc (stps ! (i + 1))) = Inr b \<Longrightarrow>
      known_state blocks (enter_block st (opcode (stps ! i)) b)"
    using "1.prems" by (blast intro: known_state_enter_block)
  have w: "known_state blocks (st\<lparr>warnings := warnings st @ [i + 1]\<rparr>)"
    using "1.prems"(2) by (simp add: known_state_def)
  show ?case
    using 1 eb w
    by (subst walk_steps.simps) (auto split: sum.splits)
qed

lemma known_state_first_state:
  "b \<in> set blocks \<Longrightarrow> known_state blocks (first_state (CFG h) b)"
  by (simp add: known_state_def known_cfg_def first_state_def Let_def add_node_def CFG_def
      BlockNode_def)

text \<open>
  C10, amended. An unknown first step of a non-empty step list is fatal
  (\<open>RuntimeError\<close>, no CFG) in the transaction builder, and in the per-contract builder
  when its block list is not empty; with an empty block list the per-contract builder
  returns the empty CFG. Once the first step is resolved, no later step is fatal in
  either builder: whatever the later steps refer to, the builder returns a CFG, and all
  its nodes and the end points of all its edges are blocks of the block list, so a step
  at a pc of no known block contributes nothing to it.
\<close>

theorem first_step_unknown_is_fatal:
  "(stps \<noteq> [] \<and> find_base_block blocks (step_address (stps ! 0)) (step_pc (stps ! 0)) = Inl e1
      \<longrightarrow> construct_cfg blocks \<lparr>trace_tx_hash = h, steps = stps\<rparr> = Inl RuntimeError)
   \<and> (contract_steps \<noteq> [] \<and> contract_blocks \<noteq> []
        \<and> contract_find_block contract_blocks (step_address (contract_steps ! 0))
              (step_pc (contract_steps ! 0)) = Inl e2
      \<longrightarrow> connect_contract_cfg contract_blocks contract_steps = Inl RuntimeError)
   \<and> connect_contract_cfg [] contract_steps = Inr (CFG ''contract_'', [])
   \<and> (find_base_block blocks (step_address (stps ! 0)) (step_pc (stps ! 0)) = Inr b
      \<longrightarrow> (\<exists>c w. construct_cfg blocks \<lparr>trace_tx_hash = h, steps = stps\<rparr> = Inr (c, w)
                 \<and> known_cfg blocks c))
   \<and> (contract_find_block contract_blocks (step_address (contract_steps ! 0))
              (step_pc (contract_steps ! 0)) = Inr b'
      \<longrightarrow> (\<exists>c w. connect_contract_cfg contract_blocks contract_steps = Inr (c, w)
                 \<and> known_cfg contract_blocks c))"
proof (intro conjI impI)
  assume "stps \<noteq> [] \<and> find_base_block blocks (step_address (stps ! 0)) (step_pc (stps ! 0)) = Inl e1"
  then show "construct_cfg blocks \<lparr>trace_tx_hash = h, steps = stps\<rparr> = Inl RuntimeError"
    by (simp add: construct_cfg_def Let_def)
next
  assume "contract_steps \<noteq> [] \<and> contract_blocks \<noteq> []
        \<and> contract_find_block contract_blocks (step_address (contract_steps ! 0))
              (step_pc (contract_steps ! 0)) = Inl e2"
  then show "connect_contract_cfg contract_blocks contract_steps = Inl RuntimeError"
    by (simp add: connect_contract_cfg_def Let_def)
next
  show "connect_contract_cfg [] contract_steps = Inr (CFG ''contract_'', [])"
    by (simp add: connect_contract_cfg_def contract_address_of_def)
next
  assume f: "find_base_block blocks (step_address (stps ! 0)) (step_pc (stps ! 0)) = Inr b"
  have "known_state blocks (walk_steps split_opcodes (find_base_block blocks) stps 0
          (first_state (CFG h) b))"
    by (intro known_state_walk_steps known_state_first_state find_base_block_in[OF f])
       (blast dest: find_base_block_in)
  moreover have "known_cfg blocks (CFG h)"
    by (simp add: known_cfg_def CFG_def)
  ultimately show "\<exists>c w. construct_cfg blocks \<lparr>trace_tx_hash = h, steps = stps\<rparr> = Inr (c, w)
                 \<and> known_cfg blocks c"
    using f by (simp add: construct_cfg_def Let_def known_state_def)
next
  assume f: "contract_find_block contract_blocks (step_address (contract_steps ! 0))
              (step_pc (contract_steps ! 0)) = Inr b'"
  have "known_state contract_blocks
          (walk_steps contract_split_opcodes (contract_find_block contract_blocks)
             contract_steps 0
             (first_state (CFG (''contract_'' @ contract_address_of contract_blocks)) b'))"
    by (intro known_state_walk_steps known_state_first_state contract_find_block_in[OF f])
       (blast dest: contract_find_block_in)
  moreover have "known_cfg contract_blocks
      (CFG (''contract_'' @ contract_address_of contract_blocks))"
    by (simp add: known_cfg_def CFG_def)
  ultimately show "\<exists>c w. connect_contract_cfg contract_blocks contract_steps = Inr (c, w)
                 \<and> known_cfg contract_blocks c"
    using f by (simp add: connect_contract_cfg_def Let_def known_state_def)
qed

theorem first_step_unknown_is_fatal_witness:
  "unknown_first_steps \<noteq> []
   \<and> find_base_block selfdestruct_blocks (step_address (unknown_first_steps ! 0))
         (step_pc (unknown_first_steps ! 0)) = Inl ValueError
   \<and> construct_cfg selfdestruct_blocks \<lparr>trace_tx_hash = ''0x01'', steps = unknown_first_steps\<rparr>
         = Inl RuntimeError
   \<and> selfdestruct_blocks \<noteq> []
   \<and> contract_find_block selfdestruct_blocks (step_address (unknown_first_steps ! 0))
         (step_pc (unknown_first_steps ! 0)) = Inl KeyError
   \<and> connect_contract_cfg selfdestruct_blocks unknown_first_steps = Inl RuntimeError
   \<and> connect_contract_cfg [] unknown_first_steps = Inr (CFG ''contract_'', [])
   \<and> find_base_block selfdestruct_blocks (step_address (unknown_second_steps ! 0))
         (step_pc (unknown_second_steps ! 0)) = Inr (mk_block ''0x0'' [(''0x0'', ''SELFDESTRUCT'')])
   \<and> find_base_block selfdestruct_blocks (step_address (unknown_second_steps ! 1))
         (step_pc (unknown_second_steps ! 1)) = Inl ValueError
   \<and> construct_cfg selfdestruct_blocks \<lparr>trace_tx_hash = ''0x01'', steps = unknown_second_steps\<rparr>
         = Inr (skip_cfg ''0x01'', [1])
   \<and> known_cfg selfdestruct_blocks (skip_cfg ''0x01'')
   \<and> contract_find_block selfdestruct_blocks (step_address (unknown_second_steps ! 0))
         (step_pc (unknown_second_steps ! 0)) = Inr (mk_block ''0x0'' [(''0x0'', ''SELFDESTRUCT'')])
   \<and> contract_find_block selfdestruct_blocks (step_address (unknown_second_steps ! 1))
         (step_pc (unknown_second_steps ! 1)) = Inl KeyError
   \<and> connect_contract_cfg selfdestruct_blocks unknown_second_steps
         = Inr (skip_cfg ''contract_0xaa'', [])
   \<and> known_cfg selfdestruct_blocks (skip_cfg ''contract_0xaa'')"
proof -
  note t = first_step_unknown_is_fatal [of unknown_first_steps selfdestruct_blocks ValueError
      "''0x01''" unknown_first_steps selfdestruct_blocks KeyError]
  note u = first_step_unknown_is_fatal [of unknown_second_steps selfdestruct_blocks _
      "''0x01''" unknown_second_steps selfdestruct_blocks _
      "mk_block ''0x0'' [(''0x0'', ''SELFDESTRUCT'')]"
      "mk_block ''0x0'' [(''0x0'', ''SELFDESTRUCT'')]"]
  have h1: "unknown_first_steps \<noteq> []"
    by code_simp
  have h2: "find_base_block selfdestruct_blocks (step_address (unknown_first_steps ! 0))
         (step_pc (unknown_first_steps ! 0)) = Inl ValueError"
    by code_simp
  have h3: "selfdestruct_blocks \<noteq> []"
    by code_simp
  have h4: "contract_find_block selfdestruct_blocks (step_address (unknown_first_steps ! 0))
         (step_pc (unknown_first_steps ! 0)) = Inl KeyError"
    by code_simp
  have h5: "find_base_block selfdestruct_blocks (step_address (unknown_second_steps ! 0))
         (step_pc (unknown_second_steps ! 0)) = Inr (mk_block ''0x0'' [(''0x0'', ''SELFDESTRUCT'')])"
    by code_simp
  have h6: "find_base_block selfdestruct_blocks (step_address (unknown_second_steps ! 1))
         (step_pc (unknown_second_steps ! 1)) = Inl ValueError"
    by code_simp
  have h7: "contract_find_block selfdestruct_blocks (step_address (unknown_second_steps ! 0))
         (step_pc (unknown_second_steps ! 0)) = Inr (mk_block ''0x0'' [(''0x0'', ''SELFDESTRUCT'')])"
    by code_simp
  have h8: "contract_find_block selfdestruct_blocks (step_address (unknown_second_steps ! 1))
         (step_pc (unknown_second_steps ! 1)) = Inl KeyError"
    by code_simp
  have v1: "construct_cfg selfdestruct_blocks
      \<lparr>trace_tx_hash = ''0x01'', steps = unknown_second_steps\<rparr> = Inr (skip_cfg ''0x01'', [1])"
    by code_simp
  have v2: "connect_contract_cfg selfdestruct_blocks unknown_second_steps
      = Inr (skip_cfg ''contract_0xaa'', [])"
    by code_simp
  have a: "construct_cfg selfdestruct_blocks
      \<lparr>trace_tx_hash = ''0x01'', steps = unknown_first_steps\<rparr> = Inl RuntimeError"
    using t[THEN conjunct1] h1 h2 by blast
  have b: "connect_contract_cfg selfdestruct_blocks unknown_first_steps = Inl RuntimeError"
    using t[THEN conjunct2, THEN conjunct1] h1 h3 h4 by blast
  have c: "connect_contract_cfg [] unknown_first_steps = Inr (CFG ''contract_'', [])"
    by (rule t[THEN conjunct2, THEN conjunct2, THEN conjunct1])
  have d: "known_cfg selfdestruct_blocks (skip_cfg ''0x01'')"
    using u[THEN conjunct2, THEN conjunct2, THEN conjunct2, THEN conjunct1] h5 v1 by auto
  have e: "known_cfg selfdestruct_blocks (skip_cfg ''contract_0xaa'')"
    using u[THEN conjunct2, THEN conjunct2, THEN conjunct2, THEN conjunct2] h7 v2 by auto
  show ?thesis
    by (intro conjI h1 h2 a h3 h4 b c h5 h6 v1 d h7 h8 v2 e)
qed


section \<open>Trace ingestion\<close>

lemma address_update_keeps:
  "current_address (address_update cs s opc rs) = current_address s"
  "out_steps (address_update cs s opc rs) = out_steps s"
  by (simp_all add: address_update_def Let_def)

lemma ingest_step_out:
  "out_steps (ingest_step cs s r) = out_steps s @
     [\<lparr>step_address = current_address s, step_pc = normalize_pc (raw_pc r),
       opcode = py_upper (raw_op r), step_stack = normalize_stack (raw_stack r)\<rparr>]"
  by (simp add: ingest_step_def Let_def address_update_keeps)

lemma ingest_step_current:
  "current_address (ingest_step cs s r)
     = next_address (address_update cs s (py_upper (raw_op r)) (raw_stack r))"
  "call_stack (ingest_step cs s r)
     = call_stack (address_update cs s (py_upper (raw_op r)) (raw_stack r))"
  "next_address (ingest_step cs s r) = current_address (ingest_step cs s r)"
  by (simp_all add: ingest_step_def Let_def)

lemma ingest_foldl_inv:
  "next_address s = current_address s \<Longrightarrow>
   next_address (foldl (ingest_step cs) s xs) = current_address (foldl (ingest_step cs) s xs)"
  by (induction xs arbitrary: s) (simp_all add: ingest_step_current(3))

lemma ingest_foldl_out:
  "\<exists>zs. out_steps (foldl (ingest_step cs) s xs) = out_steps s @ zs \<and> length zs = length xs"
proof (induction xs arbitrary: s)
  case Nil
  then show ?case by simp
next
  case (Cons x xs)
  obtain zs where "out_steps (foldl (ingest_step cs) (ingest_step cs s x) xs)
      = out_steps (ingest_step cs s x) @ zs" "length zs = length xs"
    using Cons.IH by blast
  then show ?case by (simp add: ingest_step_out)
qed

lemma ingest_loop_inv:
  "next_address (ingest_loop cs tx_to xs) = current_address (ingest_loop cs tx_to xs)"
  unfolding ingest_loop_def
  by (rule ingest_foldl_inv) (simp add: initial_ingest_state_def Let_def)

lemma ingest_loop_Suc:
  "k < length logs \<Longrightarrow>
   ingest_loop cs tx_to (take (Suc k) logs) = ingest_step cs (ingest_loop cs tx_to (take k logs)) (logs ! k)"
  by (simp add: ingest_loop_def take_Suc_conv_app_nth)

lemma ingest_loop_length:
  "length (out_steps (ingest_loop cs tx_to xs)) = length xs"
  using ingest_foldl_out[of cs "initial_ingest_state cs tx_to" xs]
  by (auto simp: ingest_loop_def initial_ingest_state_def Let_def)

lemma ingest_loop_nth:
  assumes "m < length logs"
  shows "step_address (out_steps (ingest_loop cs tx_to logs) ! m)
         = current_address (ingest_loop cs tx_to (take m logs))"
proof -
  let ?sm = "ingest_loop cs tx_to (take m logs)"
  have split: "logs = take (Suc m) logs @ drop (Suc m) logs" by simp
  have "ingest_loop cs tx_to logs
        = foldl (ingest_step cs) (ingest_loop cs tx_to (take (Suc m) logs)) (drop (Suc m) logs)"
    by (subst split) (simp only: ingest_loop_def foldl_append)
  then obtain zs where zs: "out_steps (ingest_loop cs tx_to logs)
        = out_steps (ingest_loop cs tx_to (take (Suc m) logs)) @ zs"
    using ingest_foldl_out[of cs "ingest_loop cs tx_to (take (Suc m) logs)" "drop (Suc m) logs"]
    by auto
  have len: "length (out_steps ?sm) = m"
    using assms by (simp add: ingest_loop_length)
  have "out_steps (ingest_loop cs tx_to (take (Suc m) logs)) ! m
        = \<lparr>step_address = current_address ?sm, step_pc = normalize_pc (raw_pc (logs ! m)),
           opcode = py_upper (raw_op (logs ! m)), step_stack = normalize_stack (raw_stack (logs ! m))\<rparr>"
    using assms len by (simp add: ingest_loop_Suc ingest_step_out nth_append)
  moreover have "m < length (out_steps (ingest_loop cs tx_to (take (Suc m) logs)))"
    using assms by (simp add: ingest_loop_length)
  ultimately show ?thesis
    using zs by (simp add: nth_append)
qed

text \<open>
  C7, as stated, fails: a CALL whose second-from-top stack item is not the text of an
  address (here the word \<open>0x1f\<close>) does not change the label of the next step, which stays
  the caller's address.
\<close>

theorem call_with_invalid_callee_keeps_label:
  "is_call_opcode (py_upper (raw_op (short_callee_logs ! 0)))
   \<and> raw_stack (short_callee_logs ! 0) ! (length (raw_stack (short_callee_logs ! 0)) - 2) = ''0x1f''
   \<and> map step_address (steps (get_standardized_trace checksum_stub addr_a ''0x01'' short_callee_logs))
       = [addr_a, addr_a]"
  by code_simp

text \<open>
  C7, amended. Every emitted step is labelled with the address current before its opcode
  takes effect (the current address of the loop state reached on the steps before it).
  For every CALL, CALLCODE, DELEGATECALL or STATICCALL step: when its raw stack has at
  least two items and the second-from-top item normalizes to a non-empty address, the
  current address is pushed onto the call stack and that address becomes the current
  one, hence the label of the next step; otherwise the step leaves the current address
  and the call stack as they are.
\<close>

theorem call_switches_next_label:
  "length (steps (get_standardized_trace cs tx_to h logs)) = length logs
   \<and> (\<forall>m<length logs.
         step_address (steps (get_standardized_trace cs tx_to h logs) ! m)
         = current_address (ingest_loop cs tx_to (take m logs)))
   \<and> (\<forall>k<length logs. is_call_opcode (py_upper (raw_op (logs ! k))) \<longrightarrow>
         (if 2 \<le> length (raw_stack (logs ! k))
             \<and> normalize_address cs (raw_stack (logs ! k) ! (length (raw_stack (logs ! k)) - 2)) \<noteq> []
          then current_address (ingest_loop cs tx_to (take (Suc k) logs))
                 = normalize_address cs (raw_stack (logs ! k) ! (length (raw_stack (logs ! k)) - 2))
               \<and> call_stack (ingest_loop cs tx_to (take (Suc k) logs))
                 = call_stack (ingest_loop cs tx_to (take k logs))
                   @ [current_address (ingest_loop cs tx_to (take k logs))]
               \<and> (Suc k < length logs \<longrightarrow>
                    step_address (steps (get_standardized_trace cs tx_to h logs) ! Suc k)
                    = normalize_address cs
                        (raw_stack (logs ! k) ! (length (raw_stack (logs ! k)) - 2)))
          else current_address (ingest_loop cs tx_to (take (Suc k) logs))
                 = current_address (ingest_loop cs tx_to (take k logs))
               \<and> call_stack (ingest_loop cs tx_to (take (Suc k) logs))
                 = call_stack (ingest_loop cs tx_to (take k logs))))"
proof (intro conjI allI impI)
  show "length (steps (get_standardized_trace cs tx_to h logs)) = length logs"
    by (simp add: get_standardized_trace_def ingest_loop_length)
next
  fix m assume "m < length logs"
  then show "step_address (steps (get_standardized_trace cs tx_to h logs) ! m)
         = current_address (ingest_loop cs tx_to (take m logs))"
    by (simp add: get_standardized_trace_def ingest_loop_nth)
next
  fix k assume k: "k < length logs"
    and call: "is_call_opcode (py_upper (raw_op (logs ! k)))"
  let ?s = "ingest_loop cs tx_to (take k logs)"
  let ?callee = "normalize_address cs (raw_stack (logs ! k) ! (length (raw_stack (logs ! k)) - 2))"
  show "if 2 \<le> length (raw_stack (logs ! k)) \<and> ?callee \<noteq> []
        then current_address (ingest_loop cs tx_to (take (Suc k) logs)) = ?callee
             \<and> call_stack (ingest_loop cs tx_to (take (Suc k) logs))
                 = call_stack ?s @ [current_address ?s]
             \<and> (Suc k < length logs \<longrightarrow>
                  step_address (steps (get_standardized_trace cs tx_to h logs) ! Suc k) = ?callee)
        else current_address (ingest_loop cs tx_to (take (Suc k) logs)) = current_address ?s
             \<and> call_stack (ingest_loop cs tx_to (take (Suc k) logs)) = call_stack ?s"
  proof (cases "2 \<le> length (raw_stack (logs ! k)) \<and> ?callee \<noteq> []")
    case True
    then have upd: "address_update cs ?s (py_upper (raw_op (logs ! k))) (raw_stack (logs ! k))
             = ?s\<lparr>call_stack := call_stack ?s @ [current_address ?s], next_address := ?callee\<rparr>"
      using call by (simp add: address_update_def Let_def)
    have c: "current_address (ingest_loop cs tx_to (take (Suc k) logs)) = ?callee"
      using k upd by (simp add: ingest_loop_Suc ingest_step_current)
    have st: "call_stack (ingest_loop cs tx_to (take (Suc k) logs))
           = call_stack ?s @ [current_address ?s]"
      using k upd by (simp add: ingest_loop_Suc ingest_step_current)
    have nx: "Suc k < length logs \<longrightarrow>
        step_address (steps (get_standardized_trace cs tx_to h logs) ! Suc k) = ?callee"
      using c by (simp add: get_standardized_trace_def ingest_loop_nth)
    show ?thesis
      using True c st nx by simp
  next
    case False
    then have upd': "address_update cs ?s (py_upper (raw_op (logs ! k))) (raw_stack (logs ! k)) = ?s"
      using call by (auto simp: address_update_def Let_def)
    have c: "current_address (ingest_loop cs tx_to (take (Suc k) logs)) = current_address ?s"
      using k upd' by (simp add: ingest_loop_Suc ingest_step_current ingest_loop_inv)
    have st: "call_stack (ingest_loop cs tx_to (take (Suc k) logs)) = call_stack ?s"
      using k upd' by (simp add: ingest_loop_Suc ingest_step_current)
    show ?thesis
      using False c st by simp
  qed
qed

theorem call_switches_next_label_witness:
  "length (steps (get_standardized_trace checksum_stub addr_a ''0x01'' call_logs))
     = length call_logs
   \<and> 1 < length call_logs
   \<and> step_address (steps (get_standardized_trace checksum_stub addr_a ''0x01'' call_logs) ! 1)
       = current_address (ingest_loop checksum_stub addr_a (take 1 call_logs))
   \<and> 0 < length call_logs
   \<and> is_call_opcode (py_upper (raw_op (call_logs ! 0)))
   \<and> 2 \<le> length (raw_stack (call_logs ! 0))
   \<and> normalize_address checksum_stub
         (raw_stack (call_logs ! 0) ! (length (raw_stack (call_logs ! 0)) - 2)) = addr_b
   \<and> addr_b \<noteq> []
   \<and> current_address (ingest_loop checksum_stub addr_a (take (Suc 0) call_logs)) = addr_b
   \<and> call_stack (ingest_loop checksum_stub addr_a (take (Suc 0) call_logs))
       = call_stack (ingest_loop checksum_stub addr_a (take 0 call_logs))
         @ [current_address (ingest_loop checksum_stub addr_a (take 0 call_logs))]
   \<and> step_address (steps (get_standardized_trace checksum_stub addr_a ''0x01'' call_logs) ! Suc 0)
       = addr_b
   \<and> 2 < length call_logs
   \<and> is_call_opcode (py_upper (raw_op (call_logs ! 2)))
   \<and> normalize_address checksum_stub
         (raw_stack (call_logs ! 2) ! (length (raw_stack (call_logs ! 2)) - 2)) = []
   \<and> current_address (ingest_loop checksum_stub addr_a (take (Suc 2) call_logs))
       = current_address (ingest_loop checksum_stub addr_a (take 2 call_logs))
   \<and> call_stack (ingest_loop checksum_stub addr_a (take (Suc 2) call_logs))
       = call_stack (ingest_loop checksum_stub addr_a (take 2 call_logs))"
proof -
  note t = call_switches_next_label [of checksum_stub addr_a "''0x01''" call_logs]
  note len = t[THEN conjunct1]
  note lab = t[THEN conjunct2, THEN conjunct1, rule_format]
  note call = t[THEN conjunct2, THEN conjunct2, rule_format]
  have m: "1 < length call_logs"
    by code_simp
  have h1: "0 < length call_logs"
    by code_simp
  have h2: "is_call_opcode (py_upper (raw_op (call_logs ! 0)))"
    by code_simp
  have h3: "2 \<le> length (raw_stack (call_logs ! 0))"
    by code_simp
  have h4: "normalize_address checksum_stub
         (raw_stack (call_logs ! 0) ! (length (raw_stack (call_logs ! 0)) - 2)) = addr_b"
    by code_simp
  have h5: "addr_b \<noteq> []"
    by code_simp
  have h6: "2 < length call_logs"
    by code_simp
  have h7: "is_call_opcode (py_upper (raw_op (call_logs ! 2)))"
    by code_simp
  have h8: "normalize_address checksum_stub
         (raw_stack (call_logs ! 2) ! (length (raw_stack (call_logs ! 2)) - 2)) = []"
    by code_simp
  have valid: "current_address (ingest_loop checksum_stub addr_a (take (Suc 0) call_logs)) = addr_b
     \<and> call_stack (ingest_loop checksum_stub addr_a (take (Suc 0) call_logs))
         = call_stack (ingest_loop checksum_stub addr_a (take 0 call_logs))
           @ [current_address (ingest_loop checksum_stub addr_a (take 0 call_logs))]
     \<and> step_address (steps (get_standardized_trace checksum_stub addr_a ''0x01'' call_logs) ! Suc 0)
         = addr_b"
    using call[OF h1 h2] h3 h4 h5 m by simp
  have invalid: "current_address (ingest_loop checksum_stub addr_a (take (Suc 2) call_logs))
       = current_address (ingest_loop checksum_stub addr_a (take 2 call_logs))
     \<and> call_stack (ingest_loop checksum_stub addr_a (take (Suc 2) call_logs))
       = call_stack (ingest_loop checksum_stub addr_a (take 2 call_logs))"
    using call[OF h6 h7] h8 by simp
  show ?thesis
    using len lab[OF m] m h1 h2 h3 h4 h5 h6 h7 h8 valid invalid by blast
qed


section \<open>The static builder\<close>

lemma added_Nil [simp]: "added c [] = c"
  by (simp add: added_def)

lemma added_added: "added (added c es) es' = added c (es @ es')"
  by (simp add: added_def)

lemma added_sel [simp]:
  "edges (added c es) = edges c @ es"
  "nodes (added c es) = nodes c"
  "next_edge_id (added c es) = next_edge_id c + length es"
  "tx_hash (added c es) = tx_hash c"
  by (simp_all add: added_def)

lemma try_connect_added:
  "try_connect blocks nm c cur addr pc et nsl
   = added c (try_connect_edges blocks nm (next_edge_id c) cur addr pc et nsl)"
  by (simp add: try_connect_def try_connect_edges_def connect_blocks_def added_def
      split: sum.splits option.splits)

lemma try_connect_edges_cases:
  "try_connect_edges blocks nm n cur addr pc et nsl = []
   \<or> (\<exists>t. try_connect_edges blocks nm n cur addr pc et nsl
           = [\<lparr>edge_id = n, source = cur, target = t, edge_type = et\<rparr>])"
  by (simp add: try_connect_edges_def split: sum.splits option.splits)

lemma fresh_edges_Nil [simp]: "fresh_edges n cur []"
  by (simp add: fresh_edges_def)

lemma fresh_edges_try:
  "fresh_edges n cur (try_connect_edges blocks nm n cur addr pc et nsl)"
  using try_connect_edges_cases[of blocks nm n cur addr pc et nsl]
  by (auto simp: fresh_edges_def)

lemma fresh_edges_append:
  "fresh_edges n cur es \<Longrightarrow> fresh_edges (n + length es) cur es' \<Longrightarrow> fresh_edges n cur (es @ es')"
proof -
  assume a: "fresh_edges n cur es" "fresh_edges (n + length es) cur es'"
  have "[n..<n + length es + length es'] = [n..<n + length es] @ [n + length es..<n + length es + length es']"
    by (rule upt_add_eq_append) simp
  then show ?thesis
    using a by (auto simp: fresh_edges_def add.assoc)
qed

lemma block_edges_jumpi:
  assumes "nm (block_key b) = Some cur" "instructions b \<noteq> []"
    "last (instructions b) = (pc, ''JUMPI'')" "py_int16 pc = Inr pc_int"
    "block_edges sva blocks nm c b = Inr c'"
  shows "\<exists>tgt. get_jump_target sva pc_int = Inr tgt \<and>
     c' = added c
       (try_connect_edges blocks nm (next_edge_id c) cur (address b) (to_hex (pc_int + 1))
          ''CONDITION_FALSE'' False
        @ (case tgt of None \<Rightarrow> []
           | Some t \<Rightarrow>
               try_connect_edges blocks nm
                 (next_edge_id c + length (try_connect_edges blocks nm (next_edge_id c) cur
                     (address b) (to_hex (pc_int + 1)) ''CONDITION_FALSE'' False))
                 cur (address b) (to_hex t) ''CONDITION_TRUE'' True))"
  using assms
  by (auto simp: block_edges_def Let_def try_connect_added added_added get_opcode_length_def
      startswith_def get_edge_type_static_def edge_type_map_def
      split: sum.splits option.splits)

lemma block_edges_added:
  assumes "block_edges sva blocks nm c b = Inr c'" "nm (block_key b) = Some cur"
  shows "\<exists>es. c' = added c es \<and> fresh_edges (next_edge_id c) cur es"
proof (cases "instructions b = []")
  case True
  then have "c' = added c []" using assms by (simp add: block_edges_def)
  then show ?thesis by (intro exI[of _ "[]"]) simp
next
  case False
  obtain pc_int where pci: "py_int16 (fst (last (instructions b))) = Inr pc_int"
    using assms False by (auto simp: block_edges_def Let_def split: sum.splits)
  let ?t = "snd (last (instructions b))"
  note fr = fresh_edges_try[of "next_edge_id c" cur blocks nm]
  consider (jumpi) "?t = ''JUMPI''" | (jump) "?t = ''JUMP''"
    | (stop) "?t \<noteq> ''JUMPI''" "?t \<noteq> ''JUMP''"
        "?t \<in> set [''STOP'', ''RETURN'', ''REVERT'', ''INVALID'', ''SELFDESTRUCT'']"
    | (other) "?t \<noteq> ''JUMPI''" "?t \<noteq> ''JUMP''"
        "?t \<notin> set [''STOP'', ''RETURN'', ''REVERT'', ''INVALID'', ''SELFDESTRUCT'']"
    by blast
  then show ?thesis
  proof cases
    case jumpi
    then have "last (instructions b) = (fst (last (instructions b)), ''JUMPI'')"
      by (metis prod.collapse)
    from block_edges_jumpi[OF assms(2) False this pci assms(1)]
    obtain tgt where c': "c' = added c
       (try_connect_edges blocks nm (next_edge_id c) cur (address b) (to_hex (pc_int + 1))
          ''CONDITION_FALSE'' False
        @ (case tgt of None \<Rightarrow> []
           | Some t \<Rightarrow>
               try_connect_edges blocks nm
                 (next_edge_id c + length (try_connect_edges blocks nm (next_edge_id c) cur
                     (address b) (to_hex (pc_int + 1)) ''CONDITION_FALSE'' False))
                 cur (address b) (to_hex t) ''CONDITION_TRUE'' True))" by blast
    have "fresh_edges (next_edge_id c) cur
       (try_connect_edges blocks nm (next_edge_id c) cur (address b) (to_hex (pc_int + 1))
          ''CONDITION_FALSE'' False
        @ (case tgt of None \<Rightarrow> []
           | Some t \<Rightarrow>
               try_connect_edges blocks nm
                 (next_edge_id c + length (try_connect_edges blocks nm (next_edge_id c) cur
                     (address b) (to_hex (pc_int + 1)) ''CONDITION_FALSE'' False))
                 cur (address b) (to_hex t) ''CONDITION_TRUE'' True))"
      by (intro fresh_edges_append fresh_edges_try) (auto split: option.splits intro: fresh_edges_try)
    with c' show ?thesis by blast
  next
    case jump
    then show ?thesis
      using assms False pci
      by (auto simp: block_edges_def Let_def try_connect_added
          split: sum.splits option.splits intro: fresh_edges_try exI[of _ "[]"])
  next
    case stop
    then have "c' = added c []"
      using assms False pci by (auto simp: block_edges_def Let_def)
    then show ?thesis by (intro exI[of _ "[]"]) simp
  next
    case other
    then show ?thesis
      using assms False pci
      by (auto simp: block_edges_def Let_def try_connect_added
          split: sum.splits option.splits if_splits intro: fresh_edges_try)
  qed
qed

lemma node_key_BlockNode [simp]: "node_key (BlockNode b) = block_key b"
  by (simp add: node_key_def BlockNode_def)

lemma create_nodes_cfg:
  "snd (create_nodes bs nm c) = c\<lparr>nodes := nodes c @ map BlockNode bs\<rparr>"
  by (induction bs arbitrary: nm c) (simp_all add: Let_def add_node_def)

lemma create_nodes_other:
  "k \<notin> block_key ` set bs \<Longrightarrow> fst (create_nodes bs nm c) k = nm k"
  by (induction bs arbitrary: nm c) (simp_all add: Let_def)

lemma create_nodes_own:
  "distinct (map block_key bs) \<Longrightarrow> b \<in> set bs \<Longrightarrow>
   fst (create_nodes bs nm c) (block_key b) = Some (BlockNode b)"
proof (induction bs arbitrary: nm c)
  case Nil
  then show ?case by simp
next
  case (Cons x xs)
  show ?case
  proof (cases "b = x")
    case True
    then have "block_key b \<notin> block_key ` set xs" using Cons.prems by auto
    then show ?thesis using True by (simp add: Let_def create_nodes_other)
  next
    case False
    then show ?thesis using Cons by (simp add: Let_def)
  qed
qed

lemma create_nodes_dom:
  "dom (fst (create_nodes bs nm c)) = dom nm \<union> block_key ` set bs"
  by (induction bs arbitrary: nm c) (auto simp: Let_def)

lemma find_block_by_pc_in:
  "find_block_by_pc blocks a p = Inr fb \<Longrightarrow> fb \<in> set blocks"
  by (auto simp: find_block_by_pc_def find_block_by_start_pc_def
      split: option.splits dest: base_block_map_SomeD)

lemma synthesize_split:
  "synthesize_edges sva blocks nm (pre @ b # post) c = Inr c' \<Longrightarrow>
   \<exists>ca cb. synthesize_edges sva blocks nm pre c = Inr ca
         \<and> block_edges sva blocks nm ca b = Inr cb
         \<and> synthesize_edges sva blocks nm post cb = Inr c'"
  by (induction pre arbitrary: c) (auto split: sum.splits)

lemma synthesize_added:
  assumes "synthesize_edges sva blocks nm bs c = Inr c'"
    and "\<forall>b\<in>set bs. nm (block_key b) = Some (BlockNode b)"
  shows "\<exists>es. c' = added c es
       \<and> map edge_id es = [next_edge_id c ..< next_edge_id c + length es]
       \<and> (\<forall>e\<in>set es. \<exists>b\<in>set bs. source e = BlockNode b)"
  using assms
proof (induction bs arbitrary: c)
  case Nil
  then show ?case by (intro exI[of _ "[]"]) simp
next
  case (Cons b bs)
  from Cons.prems(1) obtain cb where cb: "block_edges sva blocks nm c b = Inr cb"
    and rest: "synthesize_edges sva blocks nm bs cb = Inr c'"
    by (auto split: sum.splits)
  have nb: "nm (block_key b) = Some (BlockNode b)" using Cons.prems(2) by simp
  from block_edges_added[OF cb nb] obtain es1 where
    es1: "cb = added c es1" "fresh_edges (next_edge_id c) (BlockNode b) es1" by blast
  from Cons.IH[OF rest] Cons.prems(2) obtain es2 where
    es2: "c' = added cb es2" "map edge_id es2 = [next_edge_id cb ..< next_edge_id cb + length es2]"
      "\<forall>e\<in>set es2. \<exists>b\<in>set bs. source e = BlockNode b" by auto
  have "[next_edge_id c ..< next_edge_id c + length es1 + length es2]
      = [next_edge_id c ..< next_edge_id c + length es1]
        @ [next_edge_id c + length es1 ..< next_edge_id c + length es1 + length es2]"
    by (rule upt_add_eq_append) simp
  then have "map edge_id (es1 @ es2) = [next_edge_id c ..< next_edge_id c + length (es1 @ es2)]"
    using es1 es2 by (simp add: fresh_edges_def add.assoc)
  moreover have "c' = added c (es1 @ es2)"
    using es1 es2 by (simp add: added_added)
  moreover have "\<forall>e\<in>set (es1 @ es2). \<exists>b'\<in>set (b # bs). source e = BlockNode b'"
    using es1(2) es2(3) by (auto simp: fresh_edges_def)
  ultimately show ?case by blast
qed

lemma remove_all_nodes_result:
  "remove_all_nodes ns c nm = Inr (c', nm') \<Longrightarrow>
   c' = c\<lparr>nodes := filter (\<lambda>m. \<forall>n\<in>set ns. node_key m \<noteq> node_key n) (nodes c),
          edges := filter (\<lambda>e. \<forall>n\<in>set ns. node_key (source e) \<noteq> node_key n
                                   \<and> node_key (target e) \<noteq> node_key n) (edges c)\<rparr>"
proof (induction ns arbitrary: c nm)
  case Nil
  then show ?case by simp
next
  case (Cons n ns)
  from Cons.prems have "remove_all_nodes ns (remove_node c n) (nm(node_key n := None)) = Inr (c', nm')"
    by (auto split: option.splits)
  from Cons.IH[OF this] show ?case
    by (simp add: remove_node_def conj_commute conj_left_commute cong: conj_cong)
qed

lemma remove_all_nodes_total:
  "distinct (map node_key ns) \<Longrightarrow> node_key ` set ns \<subseteq> dom nm \<Longrightarrow>
   \<exists>c' nm'. remove_all_nodes ns c nm = Inr (c', nm')"
proof (induction ns arbitrary: c nm)
  case Nil
  then show ?case by simp
next
  case (Cons n ns)
  then obtain v where v: "nm (node_key n) = Some v" by auto
  have sub: "node_key ` set ns \<subseteq> dom (nm(node_key n := None))"
    using Cons.prems by auto
  have d: "distinct (map node_key ns)"
    using Cons.prems(1) by simp
  from Cons.IH[OF d sub] obtain c' nm' where
    "remove_all_nodes ns (remove_node c n) (nm(node_key n := None)) = Inr (c', nm')"
    by blast
  then show ?case using v by simp
qed

lemma static_nodes_facts:
  assumes "static_nodes bytecode blocks = (nm, c0)"
  shows "nodes c0 = map BlockNode blocks" "edges c0 = []" "next_edge_id c0 = 0"
    "dom nm = block_key ` set blocks"
    "distinct (map block_key blocks) \<Longrightarrow> b \<in> set blocks \<Longrightarrow> nm (block_key b) = Some (BlockNode b)"
proof -
  let ?h = "''static_complete_'' @ static_contract_address bytecode blocks"
  have c0: "c0 = snd (create_nodes blocks Map.empty (CFG ?h))"
    and nm: "nm = fst (create_nodes blocks Map.empty (CFG ?h))"
    using assms by (simp_all add: static_nodes_def)
  show "nodes c0 = map BlockNode blocks" "edges c0 = []" "next_edge_id c0 = 0"
    by (simp_all add: c0 create_nodes_cfg CFG_def)
  show "dom nm = block_key ` set blocks"
    by (simp add: nm create_nodes_dom)
  show "distinct (map block_key blocks) \<Longrightarrow> b \<in> set blocks \<Longrightarrow> nm (block_key b) = Some (BlockNode b)"
    by (simp add: nm create_nodes_own)
qed

lemma static_edges_facts:
  assumes dk: "distinct (map block_key blocks)"
    and ph: "static_edges bytecode sva blocks = Inr c1"
  shows "nodes c1 = map BlockNode blocks" "contiguous_ids c1"
proof -
  obtain nm c0 where sn: "static_nodes bytecode blocks = (nm, c0)"
    by (cases "static_nodes bytecode blocks")
  have syn: "synthesize_edges sva blocks nm blocks c0 = Inr c1"
    using ph sn by (simp add: static_edges_def)
  have own: "\<forall>b\<in>set blocks. nm (block_key b) = Some (BlockNode b)"
    using static_nodes_facts(5)[OF sn dk] by blast
  from synthesize_added[OF syn own] obtain es where
    es: "c1 = added c0 es" "map edge_id es = [next_edge_id c0 ..< next_edge_id c0 + length es]"
    by blast
  show "nodes c1 = map BlockNode blocks"
    using es static_nodes_facts(1)[OF sn] by simp
  show "contiguous_ids c1"
    using es static_nodes_facts(2,3)[OF sn] by (simp add: contiguous_ids_def)
qed

text \<open>
  C3. Let \<open>b\<close> be a block of the contract whose last instruction is JUMPI at \<open>pc\<close>. In
  the edge list after phase 2 the edges leaving \<open>b\<close> form one segment: first the
  CONDITION_FALSE edge to the block that holds \<open>pc + 1\<close>, when there is such a block;
  then the CONDITION_TRUE edge to the block that holds the target resolved by the
  analyzer, when the target is resolved, lies in a block, and that block is not \<open>b\<close>
  itself. No other edge leaves \<open>b\<close>.
\<close>

theorem jumpi_successor_edges:
  assumes dk: "distinct (map block_key blocks)"
    and ph: "static_edges bytecode sva blocks = Inr c1"
    and b: "b \<in> set blocks"
    and ins: "instructions b \<noteq> []"
    and trm: "last (instructions b) = (pc, ''JUMPI'')"
    and pci: "py_int16 pc = Inr pc_int"
  shows "\<exists>tgt before after.
     get_jump_target sva pc_int = Inr tgt
     \<and> edges c1 = before
         @ (case find_block_by_pc blocks (address b) (to_hex (pc_int + 1)) of
              Inl e \<Rightarrow> []
            | Inr fb \<Rightarrow> [\<lparr>edge_id = length before, source = BlockNode b,
                          target = BlockNode fb, edge_type = ''CONDITION_FALSE''\<rparr>])
         @ (case tgt of
              None \<Rightarrow> []
            | Some t \<Rightarrow>
                (case find_block_by_pc blocks (address b) (to_hex t) of
                   Inl e \<Rightarrow> []
                 | Inr tb \<Rightarrow>
                     if block_key tb = block_key b then []
                     else [\<lparr>edge_id = length before
                               + (case find_block_by_pc blocks (address b) (to_hex (pc_int + 1)) of
                                    Inl e \<Rightarrow> 0 | Inr fb \<Rightarrow> 1),
                             source = BlockNode b, target = BlockNode tb,
                             edge_type = ''CONDITION_TRUE''\<rparr>]))
         @ after
     \<and> (\<forall>e\<in>set before \<union> set after. node_key (source e) \<noteq> block_key b)"
proof -
  obtain nm c0 where sn: "static_nodes bytecode blocks = (nm, c0)"
    by (cases "static_nodes bytecode blocks")
  have syn: "synthesize_edges sva blocks nm blocks c0 = Inr c1"
    using ph sn by (simp add: static_edges_def)
  have own: "\<And>b'. b' \<in> set blocks \<Longrightarrow> nm (block_key b') = Some (BlockNode b')"
    using static_nodes_facts(5)[OF sn dk] by blast
  obtain pre post where sp: "blocks = pre @ b # post"
    using b by (auto dest: split_list)
  from syn obtain ca cb where ca: "synthesize_edges sva blocks nm pre c0 = Inr ca"
    and cb: "block_edges sva blocks nm ca b = Inr cb"
    and cc: "synthesize_edges sva blocks nm post cb = Inr c1"
    using synthesize_split[of sva blocks nm pre b post c0 c1] sp by auto
  have own_pre: "\<forall>b'\<in>set pre. nm (block_key b') = Some (BlockNode b')"
    and own_post: "\<forall>b'\<in>set post. nm (block_key b') = Some (BlockNode b')"
    using own sp by auto
  from synthesize_added[OF ca own_pre] obtain es1 where
    es1: "ca = added c0 es1" "\<forall>e\<in>set es1. \<exists>b'\<in>set pre. source e = BlockNode b'" by blast
  from synthesize_added[OF cc own_post] obtain es3 where
    es3: "c1 = added cb es3" "\<forall>e\<in>set es3. \<exists>b'\<in>set post. source e = BlockNode b'" by blast
  have nid: "next_edge_id ca = length es1"
    using es1(1) static_nodes_facts(3)[OF sn] by simp
  have conn: "\<And>n p et nsl. try_connect_edges blocks nm n (BlockNode b) (address b) p et nsl
      = (case find_block_by_pc blocks (address b) p of
           Inl e \<Rightarrow> []
         | Inr fb \<Rightarrow> if nsl \<and> block_key fb = block_key b then []
                     else [\<lparr>edge_id = n, source = BlockNode b, target = BlockNode fb, edge_type = et\<rparr>])"
  proof -
    fix n p et nsl
    show "try_connect_edges blocks nm n (BlockNode b) (address b) p et nsl
      = (case find_block_by_pc blocks (address b) p of
           Inl e \<Rightarrow> []
         | Inr fb \<Rightarrow> if nsl \<and> block_key fb = block_key b then []
                     else [\<lparr>edge_id = n, source = BlockNode b, target = BlockNode fb, edge_type = et\<rparr>])"
    proof (cases "find_block_by_pc blocks (address b) p")
      case (Inl e)
      then show ?thesis by (simp add: try_connect_edges_def)
    next
      case (Inr fb)
      then have "nm (block_key fb) = Some (BlockNode fb)"
        by (intro own find_block_by_pc_in)
      then show ?thesis using Inr by (simp add: try_connect_edges_def)
    qed
  qed
  from block_edges_jumpi[OF own[OF b] ins trm pci cb] obtain tgt where
    tgt: "get_jump_target sva pc_int = Inr tgt"
    and cbe: "cb = added ca
       (try_connect_edges blocks nm (next_edge_id ca) (BlockNode b) (address b) (to_hex (pc_int + 1))
          ''CONDITION_FALSE'' False
        @ (case tgt of None \<Rightarrow> []
           | Some t \<Rightarrow>
               try_connect_edges blocks nm
                 (next_edge_id ca + length (try_connect_edges blocks nm (next_edge_id ca) (BlockNode b)
                     (address b) (to_hex (pc_int + 1)) ''CONDITION_FALSE'' False))
                 (BlockNode b) (address b) (to_hex t) ''CONDITION_TRUE'' True))"
    by blast
  have e0: "edges c0 = []" by (rule static_nodes_facts(2)[OF sn])
  have keys: "\<forall>e\<in>set es1 \<union> set es3. node_key (source e) \<noteq> block_key b"
  proof
    fix e assume "e \<in> set es1 \<union> set es3"
    then obtain b' where b': "b' \<in> set pre \<union> set post" "source e = BlockNode b'"
      using es1(2) es3(2) by blast
    moreover have "block_key b \<notin> block_key ` (set pre \<union> set post)"
      using dk sp by auto
    ultimately have "block_key b' \<noteq> block_key b"
      by (metis imageI)
    then show "node_key (source e) \<noteq> block_key b"
      using b'(2) by simp
  qed
  have "edges c1 = es1
         @ (case find_block_by_pc blocks (address b) (to_hex (pc_int + 1)) of
              Inl e \<Rightarrow> []
            | Inr fb \<Rightarrow> [\<lparr>edge_id = length es1, source = BlockNode b,
                          target = BlockNode fb, edge_type = ''CONDITION_FALSE''\<rparr>])
         @ (case tgt of
              None \<Rightarrow> []
            | Some t \<Rightarrow>
                (case find_block_by_pc blocks (address b) (to_hex t) of
                   Inl e \<Rightarrow> []
                 | Inr tb \<Rightarrow>
                     if block_key tb = block_key b then []
                     else [\<lparr>edge_id = length es1
                               + (case find_block_by_pc blocks (address b) (to_hex (pc_int + 1)) of
                                    Inl e \<Rightarrow> 0 | Inr fb \<Rightarrow> 1),
                             source = BlockNode b, target = BlockNode tb,
                             edge_type = ''CONDITION_TRUE''\<rparr>]))
         @ es3"
  proof -
    have "edges c1 = es1
       @ (try_connect_edges blocks nm (length es1) (BlockNode b) (address b) (to_hex (pc_int + 1))
          ''CONDITION_FALSE'' False
        @ (case tgt of None \<Rightarrow> []
           | Some t \<Rightarrow>
               try_connect_edges blocks nm
                 (length es1 + length (try_connect_edges blocks nm (length es1) (BlockNode b)
                     (address b) (to_hex (pc_int + 1)) ''CONDITION_FALSE'' False))
                 (BlockNode b) (address b) (to_hex t) ''CONDITION_TRUE'' True))
       @ es3"
      using es3(1) cbe[unfolded nid] es1(1) e0 by simp
    also have "try_connect_edges blocks nm (length es1) (BlockNode b) (address b) (to_hex (pc_int + 1))
          ''CONDITION_FALSE'' False
        = (case find_block_by_pc blocks (address b) (to_hex (pc_int + 1)) of
              Inl e \<Rightarrow> []
            | Inr fb \<Rightarrow> [\<lparr>edge_id = length es1, source = BlockNode b,
                          target = BlockNode fb, edge_type = ''CONDITION_FALSE''\<rparr>])"
      by (simp add: conn split: sum.splits)
    finally show ?thesis
      by (cases tgt; cases "find_block_by_pc blocks (address b) (to_hex (pc_int + 1))")
         (simp_all add: conn split: sum.splits)
  qed
  then show ?thesis
    using tgt keys by (intro exI[of _ tgt] exI[of _ es1] exI[of _ es3]) simp
qed

theorem jumpi_successor_edges_witness:
  "distinct (map block_key jumpi_blocks)
   \<and> static_edges ''0x600457005b00'' jumpi_instructions jumpi_blocks = Inr jumpi_cfg
   \<and> jumpi_block \<in> set jumpi_blocks
   \<and> instructions jumpi_block \<noteq> []
   \<and> last (instructions jumpi_block) = (''0x2'', ''JUMPI'')
   \<and> py_int16 ''0x2'' = Inr 2
   \<and> get_jump_target jumpi_instructions 2 = Inr (Some 4)
   \<and> find_block_by_pc jumpi_blocks (address jumpi_block) (to_hex (2 + 1)) = Inr stop_block
   \<and> find_block_by_pc jumpi_blocks (address jumpi_block) (to_hex 4) = Inr jumpdest_block
   \<and> block_key jumpdest_block \<noteq> block_key jumpi_block
   \<and> edges jumpi_cfg =
       [\<lparr>edge_id = 0, source = BlockNode jumpi_block, target = BlockNode stop_block,
          edge_type = ''CONDITION_FALSE''\<rparr>,
        \<lparr>edge_id = 1, source = BlockNode jumpi_block, target = BlockNode jumpdest_block,
          edge_type = ''CONDITION_TRUE''\<rparr>]"
proof -
  have h1: "distinct (map block_key jumpi_blocks)"
    by code_simp
  have h2: "static_edges ''0x600457005b00'' jumpi_instructions jumpi_blocks = Inr jumpi_cfg"
    by code_simp
  have h3: "jumpi_block \<in> set jumpi_blocks"
    by (simp add: jumpi_blocks_def)
  have h4: "instructions jumpi_block \<noteq> []"
    by (simp add: jumpi_block_def mk_block_def)
  have h5: "last (instructions jumpi_block) = (''0x2'', ''JUMPI'')"
    by (simp add: jumpi_block_def mk_block_def)
  have h6: "py_int16 ''0x2'' = Inr 2"
    by (simp add: py_int16_def startswith_def hex_val_def)
  have tgt: "get_jump_target jumpi_instructions 2 = Inr (Some 4)"
    by code_simp
  have fb: "find_block_by_pc jumpi_blocks (address jumpi_block) (to_hex (2 + 1)) = Inr stop_block"
    by code_simp
  have tb: "find_block_by_pc jumpi_blocks (address jumpi_block) (to_hex 4) = Inr jumpdest_block"
    by code_simp
  have ne: "block_key jumpdest_block \<noteq> block_key jumpi_block"
    by code_simp
  from jumpi_successor_edges [OF h1 h2 h3 h4 h5 h6] obtain before after where
    seg: "edges jumpi_cfg = before
       @ [\<lparr>edge_id = length before, source = BlockNode jumpi_block,
            target = BlockNode stop_block, edge_type = ''CONDITION_FALSE''\<rparr>]
       @ [\<lparr>edge_id = length before + 1, source = BlockNode jumpi_block,
            target = BlockNode jumpdest_block, edge_type = ''CONDITION_TRUE''\<rparr>]
       @ after"
    using tgt fb tb ne by auto
  have "length (edges jumpi_cfg) = 2"
    by (simp add: jumpi_cfg_def)
  then have "length before + 2 + length after = 2"
    by (subst (asm) seg) simp
  then have "before = []" "after = []"
    by simp_all
  with seg have "edges jumpi_cfg =
       [\<lparr>edge_id = 0, source = BlockNode jumpi_block, target = BlockNode stop_block,
          edge_type = ''CONDITION_FALSE''\<rparr>,
        \<lparr>edge_id = 1, source = BlockNode jumpi_block, target = BlockNode jumpdest_block,
          edge_type = ''CONDITION_TRUE''\<rparr>]"
    by simp
  then show ?thesis
    using h1 h2 h3 h4 h5 h6 tgt fb tb ne by blast
qed

lemma pruning_result:
  assumes dn: "distinct (map node_key (nodes c))"
    and dom: "node_key ` set (nodes c) \<subseteq> dom nm"
  shows "\<exists>c' nm'. remove_unreachable_instruction_blocks c nm = Inr (c', nm')
     \<and> nodes c' = filter (\<lambda>n. \<not> unreachable_instruction_block c n) (nodes c)
     \<and> edges c' = filter (\<lambda>e. \<forall>n\<in>set (nodes c). unreachable_instruction_block c n \<longrightarrow>
                              node_key (source e) \<noteq> node_key n \<and> node_key (target e) \<noteq> node_key n)
                     (edges c)
     \<and> next_edge_id c' = next_edge_id c \<and> tx_hash c' = tx_hash c"
proof -
  let ?rm = "filter (unreachable_instruction_block c) (nodes c)"
  have d: "distinct (map node_key ?rm)"
    using dn by (rule distinct_map_filter)
  have sub: "node_key ` set ?rm \<subseteq> dom nm"
    using dom by auto
  from remove_all_nodes_total[OF d sub] obtain c' nm' where
    r: "remove_all_nodes ?rm c nm = Inr (c', nm')" by blast
  note c' = remove_all_nodes_result[OF r]
  have inj: "inj_on node_key (set (nodes c))"
    using dn by (simp add: distinct_map)
  have "filter (\<lambda>m. \<forall>n\<in>set ?rm. node_key m \<noteq> node_key n) (nodes c)
        = filter (\<lambda>n. \<not> unreachable_instruction_block c n) (nodes c)"
  proof (rule filter_cong[OF refl])
    fix m assume m: "m \<in> set (nodes c)"
    show "(\<forall>n\<in>set ?rm. node_key m \<noteq> node_key n) = (\<not> unreachable_instruction_block c m)"
      using m inj by (auto dest: inj_onD)
  qed
  moreover have "filter (\<lambda>e. \<forall>n\<in>set ?rm. node_key (source e) \<noteq> node_key n
                                   \<and> node_key (target e) \<noteq> node_key n) (edges c)
      = filter (\<lambda>e. \<forall>n\<in>set (nodes c). unreachable_instruction_block c n \<longrightarrow>
                              node_key (source e) \<noteq> node_key n \<and> node_key (target e) \<noteq> node_key n)
                     (edges c)"
    by (rule filter_cong[OF refl]) auto
  ultimately show ?thesis
    using r c' by (simp add: remove_unreachable_instruction_blocks_def)
qed

text \<open>
  C4. For the blocks of one contract (pairwise distinct keys), whenever phase 2 has
  produced a CFG the pruning returns one, in which every node that starts at pc 0 or
  begins with JUMPDEST is still present; a node is removed only if it has no incoming
  edge, does not start at pc 0 and does not begin with JUMPDEST; and the edges that
  remain are exactly the edges not incident to a removed node.
\<close>

theorem pruning_keeps_entry_and_jumpdest_blocks:
  assumes dk: "distinct (map block_key blocks)"
    and ph: "static_edges bytecode sva blocks = Inr c1"
  shows "\<exists>c2. build_static_cfg bytecode sva blocks = Inr c2
     \<and> (\<forall>n\<in>set (nodes c1). start_pc (base_block n) = ''0x0'' \<or> begins_with_jumpdest n
            \<longrightarrow> n \<in> set (nodes c2))
     \<and> (\<forall>n\<in>set (nodes c1). n \<notin> set (nodes c2)
            \<longrightarrow> \<not> has_incoming_edge c1 n \<and> start_pc (base_block n) \<noteq> ''0x0''
                \<and> \<not> begins_with_jumpdest n)
     \<and> set (nodes c2) \<subseteq> set (nodes c1)
     \<and> (\<forall>e. e \<in> set (edges c2) \<longleftrightarrow>
              e \<in> set (edges c1)
              \<and> (\<forall>n\<in>set (nodes c1). n \<notin> set (nodes c2)
                    \<longrightarrow> node_key (source e) \<noteq> node_key n \<and> node_key (target e) \<noteq> node_key n))"
proof -
  obtain nm c0 where sn: "static_nodes bytecode blocks = (nm, c0)"
    by (cases "static_nodes bytecode blocks")
  have syn: "synthesize_edges sva blocks nm blocks c0 = Inr c1"
    using ph sn by (simp add: static_edges_def)
  have n1: "nodes c1 = map BlockNode blocks"
    by (rule static_edges_facts(1)[OF dk ph])
  have dn: "distinct (map node_key (nodes c1))"
    using dk by (simp add: n1 comp_def)
  have dom: "node_key ` set (nodes c1) \<subseteq> dom nm"
    using static_nodes_facts(4)[OF sn] by (auto simp: n1)
  from pruning_result[OF dn dom] obtain c2 nm' where
    r: "remove_unreachable_instruction_blocks c1 nm = Inr (c2, nm')"
    and n2: "nodes c2 = filter (\<lambda>n. \<not> unreachable_instruction_block c1 n) (nodes c1)"
    and e2: "edges c2 = filter (\<lambda>e. \<forall>n\<in>set (nodes c1). unreachable_instruction_block c1 n \<longrightarrow>
                              node_key (source e) \<noteq> node_key n \<and> node_key (target e) \<noteq> node_key n)
                     (edges c1)"
    by blast
  have b: "build_static_cfg bytecode sva blocks = Inr c2"
    using sn syn r by (simp add: build_static_cfg_def)
  have mem: "\<And>n. n \<in> set (nodes c1) \<Longrightarrow>
      (n \<notin> set (nodes c2)) = unreachable_instruction_block c1 n"
    by (simp add: n2)
  have unr: "\<And>n. unreachable_instruction_block c1 n =
      (\<not> has_incoming_edge c1 n \<and> start_pc (base_block n) \<noteq> ''0x0'' \<and> \<not> begins_with_jumpdest n
       \<and> instructions (base_block n) \<noteq> [])"
    by (auto simp: unreachable_instruction_block_def begins_with_jumpdest_def split: list.splits)
  have p1: "\<forall>n\<in>set (nodes c1). start_pc (base_block n) = ''0x0'' \<or> begins_with_jumpdest n
            \<longrightarrow> n \<in> set (nodes c2)"
    using mem unr by blast
  have p2: "\<forall>n\<in>set (nodes c1). n \<notin> set (nodes c2)
            \<longrightarrow> \<not> has_incoming_edge c1 n \<and> start_pc (base_block n) \<noteq> ''0x0''
                \<and> \<not> begins_with_jumpdest n"
    using mem unr by blast
  have p3: "set (nodes c2) \<subseteq> set (nodes c1)"
    by (auto simp: n2)
  have p4: "\<forall>e. e \<in> set (edges c2) \<longleftrightarrow>
              e \<in> set (edges c1)
              \<and> (\<forall>n\<in>set (nodes c1). n \<notin> set (nodes c2)
                    \<longrightarrow> node_key (source e) \<noteq> node_key n \<and> node_key (target e) \<noteq> node_key n)"
    using mem by (auto simp: e2)
  show ?thesis
    using b p1 p2 p3 p4 by blast
qed

theorem pruning_keeps_entry_and_jumpdest_blocks_witness:
  "distinct (map block_key pruned_blocks)
   \<and> static_edges ''0x00f1f100'' pruned_instructions pruned_blocks = Inr unpruned_cfg
   \<and> build_static_cfg ''0x00f1f100'' pruned_instructions pruned_blocks = Inr pruned_cfg
   \<and> BlockNode (mk_block ''0x0'' [(''0x0'', ''STOP'')]) \<in> set (nodes unpruned_cfg)
   \<and> start_pc (base_block (BlockNode (mk_block ''0x0'' [(''0x0'', ''STOP'')]))) = ''0x0''
   \<and> BlockNode (mk_block ''0x0'' [(''0x0'', ''STOP'')]) \<in> set (nodes pruned_cfg)
   \<and> BlockNode (mk_block ''0x1'' [(''0x1'', ''CALL'')]) \<in> set (nodes unpruned_cfg)
   \<and> BlockNode (mk_block ''0x1'' [(''0x1'', ''CALL'')]) \<notin> set (nodes pruned_cfg)
   \<and> \<not> has_incoming_edge unpruned_cfg (BlockNode (mk_block ''0x1'' [(''0x1'', ''CALL'')]))
   \<and> start_pc (base_block (BlockNode (mk_block ''0x1'' [(''0x1'', ''CALL'')]))) \<noteq> ''0x0''
   \<and> \<not> begins_with_jumpdest (BlockNode (mk_block ''0x1'' [(''0x1'', ''CALL'')]))
   \<and> set (nodes pruned_cfg) \<subseteq> set (nodes unpruned_cfg)
   \<and> edges unpruned_cfg ! 0 \<in> set (edges unpruned_cfg)
   \<and> node_key (source (edges unpruned_cfg ! 0))
       = node_key (BlockNode (mk_block ''0x1'' [(''0x1'', ''CALL'')]))
   \<and> edges unpruned_cfg ! 0 \<notin> set (edges pruned_cfg)"
proof -
  have h1: "distinct (map block_key pruned_blocks)"
    by code_simp
  have h2: "static_edges ''0x00f1f100'' pruned_instructions pruned_blocks = Inr unpruned_cfg"
    by code_simp
  have h3: "build_static_cfg ''0x00f1f100'' pruned_instructions pruned_blocks = Inr pruned_cfg"
    by code_simp
  let ?n0 = "BlockNode (mk_block ''0x0'' [(''0x0'', ''STOP'')])"
  let ?n1 = "BlockNode (mk_block ''0x1'' [(''0x1'', ''CALL'')])"
  have m0: "?n0 \<in> set (nodes unpruned_cfg)"
    by code_simp
  have s0: "start_pc (base_block ?n0) = ''0x0''"
    by code_simp
  have m1: "?n1 \<in> set (nodes unpruned_cfg)"
    by code_simp
  have r1: "?n1 \<notin> set (nodes pruned_cfg)"
    by code_simp
  have e0: "edges unpruned_cfg ! 0 \<in> set (edges unpruned_cfg)"
    by code_simp
  have k0: "node_key (source (edges unpruned_cfg ! 0)) = node_key ?n1"
    by code_simp
  from pruning_keeps_entry_and_jumpdest_blocks [OF h1 h2] obtain c2 where
    b: "build_static_cfg ''0x00f1f100'' pruned_instructions pruned_blocks = Inr c2"
    and keep': "\<forall>n\<in>set (nodes unpruned_cfg).
         start_pc (base_block n) = ''0x0'' \<or> begins_with_jumpdest n \<longrightarrow> n \<in> set (nodes c2)"
    and only': "\<forall>n\<in>set (nodes unpruned_cfg). n \<notin> set (nodes c2)
         \<longrightarrow> \<not> has_incoming_edge unpruned_cfg n \<and> start_pc (base_block n) \<noteq> ''0x0''
             \<and> \<not> begins_with_jumpdest n"
    and sub': "set (nodes c2) \<subseteq> set (nodes unpruned_cfg)"
    and inc': "\<forall>e. e \<in> set (edges c2) \<longleftrightarrow>
              e \<in> set (edges unpruned_cfg)
              \<and> (\<forall>n\<in>set (nodes unpruned_cfg). n \<notin> set (nodes c2)
                    \<longrightarrow> node_key (source e) \<noteq> node_key n
                        \<and> node_key (target e) \<noteq> node_key n)"
    by (elim exE conjE)
  have c2: "c2 = pruned_cfg"
    using b h3 by simp
  note keep = keep'[unfolded c2] and only = only'[unfolded c2] and sub = sub'[unfolded c2]
    and inc = inc'[unfolded c2]
  have k: "?n0 \<in> set (nodes pruned_cfg)"
    using keep m0 s0 by blast
  have o: "\<not> has_incoming_edge unpruned_cfg ?n1 \<and> start_pc (base_block ?n1) \<noteq> ''0x0''
      \<and> \<not> begins_with_jumpdest ?n1"
    using only m1 r1 by blast
  have g: "edges unpruned_cfg ! 0 \<notin> set (edges pruned_cfg)"
  proof
    assume "edges unpruned_cfg ! 0 \<in> set (edges pruned_cfg)"
    then have "\<forall>n\<in>set (nodes unpruned_cfg). n \<notin> set (nodes pruned_cfg)
        \<longrightarrow> node_key (source (edges unpruned_cfg ! 0)) \<noteq> node_key n
            \<and> node_key (target (edges unpruned_cfg ! 0)) \<noteq> node_key n"
      using inc by simp
    then show False
      using m1 r1 k0 by blast
  qed
  show ?thesis
    by (intro conjI h1 h2 h3 m0 s0 k m1 r1 sub e0 k0 g o[THEN conjunct1]
        o[THEN conjunct2, THEN conjunct1] o[THEN conjunct2, THEN conjunct2])
qed

lemma contiguous_add_edge: "contiguous_ids c \<Longrightarrow> contiguous_ids (add_edge c s t k)"
  by (simp add: contiguous_ids_def add_edge_def)

lemma contiguous_add_node: "contiguous_ids c \<Longrightarrow> contiguous_ids (add_node c n)"
  by (simp add: contiguous_ids_def add_node_def)

lemma contiguous_enter_block:
  "contiguous_ids (st_cfg st) \<Longrightarrow> contiguous_ids (st_cfg (enter_block st opc b))"
  by (auto simp: enter_block_def Let_def contiguous_add_edge contiguous_add_node
      split: option.splits)

lemma contiguous_walk_steps:
  "contiguous_ids (st_cfg st) \<Longrightarrow> contiguous_ids (st_cfg (walk_steps split lookup stps i st))"
proof (induction split lookup stps i st rule: walk_steps.induct)
  case (1 split lookup stps i st)
  show ?case
    using 1 by (subst walk_steps.simps) (auto split: sum.splits simp: contiguous_enter_block)
qed

lemma contiguous_CFG: "contiguous_ids (CFG h)"
  by (simp add: contiguous_ids_def CFG_def)

lemma contiguous_first_state: "contiguous_ids (st_cfg (first_state (CFG h) b))"
  by (simp add: first_state_def Let_def contiguous_add_node contiguous_CFG)

lemma contiguous_construct_cfg:
  "construct_cfg blocks trace = Inr (c, w) \<Longrightarrow> contiguous_ids c"
  by (auto simp: construct_cfg_def Let_def contiguous_CFG contiguous_walk_steps
      contiguous_first_state split: if_splits sum.splits)

lemma contiguous_connect_contract_cfg:
  "connect_contract_cfg blocks stps = Inr (c, w) \<Longrightarrow> contiguous_ids c"
  by (auto simp: connect_contract_cfg_def Let_def contiguous_CFG contiguous_walk_steps
      contiguous_first_state split: if_splits sum.splits)

text \<open>
  C5, as stated, fails after pruning: the pruned node's edge had id 0, the edge that
  remains keeps its id 1, and the ids of the one edge present are not the range [0, 1).
\<close>

theorem pruning_leaves_gap_in_edge_ids:
  "build_static_cfg ''0x00f1f100'' pruned_instructions pruned_blocks = Inr pruned_cfg
   \<and> map edge_id (edges pruned_cfg) = [1]
   \<and> [0 ..< length (edges pruned_cfg)] = [0]"
  by code_simp

text \<open>
  C5, amended. In the CFGs of the two dynamic builders and in the static CFG before
  pruning the edge ids are the range [0, E) in insertion order. Pruning removes edges
  without renumbering: in the static CFG after pruning the edges are edges of the CFG
  before pruning with their ids, the ids are strictly increasing along the list and
  below the number of edges inserted (at which the counter stays), but they need not be
  contiguous.
\<close>

theorem edge_ids_increasing:
  assumes "construct_cfg all_base_blocks trace = Inr (ct, wt)"
    and "connect_contract_cfg contract_blocks contract_steps = Inr (cc, wc)"
    and dk: "distinct (map block_key blocks)"
    and ph: "static_edges bytecode sva blocks = Inr c1"
    and bs: "build_static_cfg bytecode sva blocks = Inr c2"
  shows "map edge_id (edges ct) = [0 ..< length (edges ct)]
       \<and> map edge_id (edges cc) = [0 ..< length (edges cc)]
       \<and> map edge_id (edges c1) = [0 ..< length (edges c1)]
       \<and> sorted_wrt (<) (map edge_id (edges c2))
       \<and> set (edges c2) \<subseteq> set (edges c1)
       \<and> (\<forall>e\<in>set (edges c2). edge_id e < length (edges c1))
       \<and> next_edge_id c2 = length (edges c1)"
proof -
  have ct: "map edge_id (edges ct) = [0 ..< length (edges ct)]"
    using contiguous_construct_cfg[OF assms(1)] by (simp add: contiguous_ids_def)
  have cc: "map edge_id (edges cc) = [0 ..< length (edges cc)]"
    using contiguous_connect_contract_cfg[OF assms(2)] by (simp add: contiguous_ids_def)
  have c1: "map edge_id (edges c1) = [0 ..< length (edges c1)]" "next_edge_id c1 = length (edges c1)"
    using static_edges_facts(2)[OF dk ph] by (simp_all add: contiguous_ids_def)
  obtain nm c0 where sn: "static_nodes bytecode blocks = (nm, c0)"
    by (cases "static_nodes bytecode blocks")
  have syn: "synthesize_edges sva blocks nm blocks c0 = Inr c1"
    using ph sn by (simp add: static_edges_def)
  obtain nm' where r: "remove_unreachable_instruction_blocks c1 nm = Inr (c2, nm')"
    using bs sn syn by (auto simp: build_static_cfg_def split: sum.splits)
  from remove_all_nodes_result[OF r[unfolded remove_unreachable_instruction_blocks_def]]
  obtain P where e2: "edges c2 = filter P (edges c1)" and n2: "next_edge_id c2 = next_edge_id c1"
    by simp
  have "sorted_wrt (<) (map edge_id (edges c1))"
    by (simp add: c1(1))
  then have s2: "sorted_wrt (<) (map edge_id (edges c2))"
    by (simp add: e2 sorted_wrt_map sorted_wrt_filter)
  have sub: "set (edges c2) \<subseteq> set (edges c1)"
    by (auto simp: e2)
  have "\<forall>e\<in>set (edges c1). edge_id e < length (edges c1)"
  proof
    fix e assume "e \<in> set (edges c1)"
    then have "edge_id e \<in> set (map edge_id (edges c1))" by simp
    then show "edge_id e < length (edges c1)" by (simp only: c1(1)) simp
  qed
  then have lt: "\<forall>e\<in>set (edges c2). edge_id e < length (edges c1)"
    using sub by blast
  show ?thesis
    using ct cc c1 s2 sub lt n2 by simp
qed

theorem edge_ids_increasing_witness:
  "construct_cfg selfdestruct_blocks \<lparr>trace_tx_hash = ''0x01'', steps = selfdestruct_steps\<rparr>
     = Inr (destruct_cfg, [])
   \<and> connect_contract_cfg selfdestruct_blocks stop_call_steps = Inr (contract_cfg, [])
   \<and> distinct (map block_key pruned_blocks)
   \<and> static_edges ''0x00f1f100'' pruned_instructions pruned_blocks = Inr unpruned_cfg
   \<and> build_static_cfg ''0x00f1f100'' pruned_instructions pruned_blocks = Inr pruned_cfg
   \<and> map edge_id (edges destruct_cfg) = [0 ..< length (edges destruct_cfg)]
   \<and> map edge_id (edges contract_cfg) = [0 ..< length (edges contract_cfg)]
   \<and> map edge_id (edges unpruned_cfg) = [0 ..< length (edges unpruned_cfg)]
   \<and> sorted_wrt (<) (map edge_id (edges pruned_cfg))
   \<and> set (edges pruned_cfg) \<subseteq> set (edges unpruned_cfg)
   \<and> edges pruned_cfg ! 0 \<in> set (edges pruned_cfg)
   \<and> edge_id (edges pruned_cfg ! 0) = 1
   \<and> edge_id (edges pruned_cfg ! 0) < length (edges unpruned_cfg)
   \<and> next_edge_id pruned_cfg = length (edges unpruned_cfg)"
proof -
  have h1: "construct_cfg selfdestruct_blocks
      \<lparr>trace_tx_hash = ''0x01'', steps = selfdestruct_steps\<rparr> = Inr (destruct_cfg, [])"
    by code_simp
  have h2: "connect_contract_cfg selfdestruct_blocks stop_call_steps = Inr (contract_cfg, [])"
    by code_simp
  have h3: "distinct (map block_key pruned_blocks)"
    by code_simp
  have h4: "static_edges ''0x00f1f100'' pruned_instructions pruned_blocks = Inr unpruned_cfg"
    by code_simp
  have h5: "build_static_cfg ''0x00f1f100'' pruned_instructions pruned_blocks = Inr pruned_cfg"
    by code_simp
  have m: "edges pruned_cfg ! 0 \<in> set (edges pruned_cfg)"
    by code_simp
  have v: "edge_id (edges pruned_cfg ! 0) = 1"
    by code_simp
  show ?thesis
    using h1 h2 h3 h4 h5 m v edge_ids_increasing [OF h1 h2 h3 h4 h5]
    by blast
qed

end
